theory Spec2Isabelle
  imports
    Complex_Main
    "HOL-Library.Char_ord"
    "HOL-Library.List_Lexorder"
    "HOL-Library.Product_Lexorder"
begin

section \<open>Calendar dates\<close>

text \<open>
  \<^verbatim>\<open>rep_station.py\<close> works on \<^verbatim>\<open>datetime.date\<close> values. A date is its three fields;
  comparison is the comparison of \<^verbatim>\<open>(year, month, day)\<close>, as in Python, and the
  proleptic Gregorian ordinal is computed as \<^verbatim>\<open>date.toordinal\<close> computes it
  (\<^verbatim>\<open>_days_before_year\<close>, \<^verbatim>\<open>_days_before_month\<close>, \<^verbatim>\<open>_is_leap\<close> of the standard library).
  Python builds no date whose month or day is out of range; the ordinal of such a triple
  has no meaning here and no statement below depends on one.
\<close>

datatype date = Date (year: int) (month: nat) (day: nat)

definition date_less :: "date \<Rightarrow> date \<Rightarrow> bool" where
  "date_less a b =
     (year a < year b \<or>
      (year a = year b \<and> (month a < month b \<or> (month a = month b \<and> day a < day b))))"

text \<open>Python's \<^verbatim>\<open>max(a, b)\<close> keeps \<^verbatim>\<open>a\<close> unless \<^verbatim>\<open>b > a\<close>; \<^verbatim>\<open>min(a, b)\<close> keeps
  \<^verbatim>\<open>a\<close> unless \<^verbatim>\<open>b < a\<close>.\<close>

definition date_max :: "date \<Rightarrow> date \<Rightarrow> date" where
  "date_max a b = (if date_less a b then b else a)"

definition date_min :: "date \<Rightarrow> date \<Rightarrow> date" where
  "date_min a b = (if date_less b a then b else a)"

definition is_leap :: "int \<Rightarrow> bool" where
  "is_leap y = (y mod 4 = 0 \<and> (y mod 100 \<noteq> 0 \<or> y mod 400 = 0))"

definition days_before_year :: "int \<Rightarrow> int" where
  "days_before_year y = (y - 1) * 365 + (y - 1) div 4 - (y - 1) div 100 + (y - 1) div 400"

definition DAYS_BEFORE_MONTH :: "int list" where
  "DAYS_BEFORE_MONTH = [-1, 0, 31, 59, 90, 120, 151, 181, 212, 243, 273, 304, 334]"

definition days_before_month :: "int \<Rightarrow> nat \<Rightarrow> int" where
  "days_before_month y m =
     DAYS_BEFORE_MONTH ! m + (if 2 < m \<and> is_leap y then 1 else 0)"

definition toordinal :: "date \<Rightarrow> int" where
  "toordinal d = days_before_year (year d) + days_before_month (year d) (month d) + int (day d)"

text \<open>\<^verbatim>\<open>date.weekday()\<close>: Monday is 0, Tuesday 1, ..., Sunday 6.\<close>

definition weekday :: "date \<Rightarrow> int" where
  "weekday d = (toordinal d + 6) mod 7"

section \<open>Year slices\<close>

text \<open>
  \<^verbatim>\<open>year_slices(mind, maxd)\<close>. A missing bound (\<^verbatim>\<open>None\<close>, caught by \<^verbatim>\<open>not mind\<close>) is
  \<open>None\<close>. The loop over \<^verbatim>\<open>range(start.year, end.year + 1)\<close> appends one pair per year.
\<close>

definition start_limit :: date where
  "start_limit = Date 2002 1 1"

definition end_limit :: date where
  "end_limit = Date 2025 12 31"

definition year_slice :: "date \<Rightarrow> date \<Rightarrow> int \<Rightarrow> date \<times> date" where
  "year_slice start end y =
     (if y = year start then start else Date y 1 1,
      if y = year end then end else Date y 12 31)"

definition year_slices :: "date option \<Rightarrow> date option \<Rightarrow> (date \<times> date) list" where
  "year_slices mind maxd =
     (case (mind, maxd) of
        (Some mi, Some ma) \<Rightarrow>
          if date_less ma mi then []
          else
            let start = date_max mi start_limit;
                end = date_min ma end_limit
            in if date_less end start then []
               else map (year_slice start end) [year start .. year end]
      | _ \<Rightarrow> [])"

section \<open>Representative-station selection\<close>

text \<open>
  A row of the station table. Only the columns that \<^verbatim>\<open>pick_representative_station\<close> reads
  are fields: \<^verbatim>\<open>id\<close>, \<^verbatim>\<open>mindate\<close>, \<^verbatim>\<open>maxdate\<close> and \<^verbatim>\<open>datacoverage\<close>, the last three
  after \<^verbatim>\<open>pd.to_datetime\<close> / \<^verbatim>\<open>pd.to_numeric\<close> with \<^verbatim>\<open>errors="coerce"\<close>: \<open>None\<close> is
  \<^verbatim>\<open>NaT\<close> / \<^verbatim>\<open>NaN\<close>. Coverage values are exact rationals, so the tolerance
  \<^verbatim>\<open>1e-6\<close> is \<open>1 / 1000000\<close> and no rounding of the float arithmetic is modelled.
\<close>

record station =
  station_id :: string
  mindate :: "date option"
  maxdate :: "date option"
  datacoverage :: "rat option"

definition startswith :: "string \<Rightarrow> string \<Rightarrow> bool" where
  "startswith s p = (take (length p) s = p)"

text \<open>\<^verbatim>\<open>(maxdate - mindate).dt.days.fillna(-1).astype(int)\<close>\<close>

definition span_days :: "station \<Rightarrow> int" where
  "span_days s =
     (case mindate s of
        None \<Rightarrow> -1
      | Some a \<Rightarrow> (case maxdate s of None \<Rightarrow> -1 | Some b \<Rightarrow> toordinal b - toordinal a))"

definition is_usw :: "station \<Rightarrow> int" where
  "is_usw s = (if startswith (station_id s) ''GHCND:USW'' then 1 else 0)"

definition tol :: rat where
  "tol = 1 / 1000000"

text \<open>
  \<^verbatim>\<open>df.sort_values(by=["is_usw", "span_days", "mindate", "id"],
  ascending=[False, False, True, True]).head(1)\<close>. The sort is a stable lexicographic
  sort; a missing \<^verbatim>\<open>mindate\<close> is placed last (\<^verbatim>\<open>na_position="last"\<close>), identifiers are
  compared as Python strings (lexicographically by character code). The two descending
  integer keys are negated.
\<close>

definition mindate_key :: "station \<Rightarrow> nat \<times> int" where
  "mindate_key s = (case mindate s of Some d \<Rightarrow> (0, toordinal d) | None \<Rightarrow> (1, 0))"

definition sort_values_key :: "station \<Rightarrow> int \<times> int \<times> (nat \<times> int) \<times> string" where
  "sort_values_key s = (- is_usw s, - span_days s, mindate_key s, station_id s)"

definition select :: "station list \<Rightarrow> station list" where
  "select df = (if df = [] then df else take 1 (sort_key sort_values_key df))"

text \<open>The candidate pool \<^verbatim>\<open>cand\<close>: the stations, restricted to the USW ones when
  \<^verbatim>\<open>prefer_usw\<close> is set and there is one.\<close>

definition cand_pool :: "station list \<Rightarrow> bool \<Rightarrow> station list" where
  "cand_pool stations prefer_usw =
     (if prefer_usw \<and> (\<exists>s \<in> set stations. is_usw s = 1)
      then filter (\<lambda>s. is_usw s = 1) stations else stations)"

text \<open>Comparisons with \<^verbatim>\<open>NaN\<close> are false.\<close>

definition cov_ge :: "rat \<Rightarrow> station \<Rightarrow> bool" where
  "cov_ge x s = (case datacoverage s of None \<Rightarrow> False | Some c \<Rightarrow> x \<le> c)"

definition cov_between :: "rat \<Rightarrow> rat \<Rightarrow> station \<Rightarrow> bool" where
  "cov_between lo hi s = (case datacoverage s of None \<Rightarrow> False | Some c \<Rightarrow> lo \<le> c \<and> c \<le> hi)"

text \<open>\<^verbatim>\<open>cand["datacoverage"].max(skipna=True)\<close>: \<open>None\<close> when every value is missing.\<close>

definition max_cov :: "station list \<Rightarrow> rat option" where
  "max_cov cand =
     (let cs = List.map_filter datacoverage cand
      in if cs = [] then None else Some (Max (set cs)))"

definition pick_representative_station :: "station list \<Rightarrow> bool \<Rightarrow> station list" where
  "pick_representative_station stations prefer_usw =
     (if stations = [] then stations
      else
        let cand = cand_pool stations prefer_usw;
            cov1 = filter (cov_ge (1 - tol)) cand
        in if cov1 \<noteq> [] then select cov1
           else (case max_cov cand of
                   None \<Rightarrow> select cand
                 | Some m \<Rightarrow> select (filter (cov_between (m - tol) (m + tol)) cand)))"

text \<open>The spec's wording of near-complete coverage: within \<open>tol\<close> of 1.\<close>

definition near_complete :: "station \<Rightarrow> bool" where
  "near_complete s = (case datacoverage s of None \<Rightarrow> False | Some c \<Rightarrow> \<bar>c - 1\<bar> \<le> tol)"

text \<open>
  The sort order in the spec's words: descending by (preferred-network flag, span days),
  then ascending by (earliest start date, identifier), a missing start date last.
\<close>

definition earlier_start :: "station \<Rightarrow> station \<Rightarrow> bool" where
  "earlier_start w c =
     (case mindate w of
        None \<Rightarrow> False
      | Some x \<Rightarrow> (case mindate c of None \<Rightarrow> True | Some y \<Rightarrow> toordinal x < toordinal y))"

definition same_start :: "station \<Rightarrow> station \<Rightarrow> bool" where
  "same_start w c =
     (case mindate w of
        None \<Rightarrow> mindate c = None
      | Some x \<Rightarrow> (case mindate c of None \<Rightarrow> False | Some y \<Rightarrow> toordinal x = toordinal y))"

definition precedes :: "station \<Rightarrow> station \<Rightarrow> bool" where
  "precedes w c =
     (is_usw c < is_usw w \<or>
      (is_usw w = is_usw c \<and>
        (span_days c < span_days w \<or>
         (span_days w = span_days c \<and>
           (earlier_start w c \<or> (same_start w c \<and> station_id w \<le> station_id c))))))"

text \<open>The data model's range of a coverage fraction: a defined coverage lies in [0, 1].\<close>

definition coverage_in_unit :: "station \<Rightarrow> bool" where
  "coverage_in_unit s = (case datacoverage s of None \<Rightarrow> True | Some c \<Rightarrow> 0 \<le> c \<and> c \<le> 1)"

section \<open>Exceptions\<close>

text \<open>The exceptions that the modelled code raises, catches or lets through.\<close>

datatype exc =
  Timeout | ConnectionError | HTTPError nat | JSONDecodeError | OtherRequestException
  | RuntimeError | ValueError | TypeError | AttributeError | OtherException

section \<open>Period aggregation\<close>

text \<open>
  A row of the daily table: the columns \<^verbatim>\<open>date\<close> (after \<^verbatim>\<open>pd.to_datetime(...,
  errors="coerce")\<close>, \<open>None\<close> for \<^verbatim>\<open>NaT\<close>), \<^verbatim>\<open>datatype\<close> and \<^verbatim>\<open>value\<close>. Values are exact
  rationals: the sums and means below are the arithmetic ones, without the rounding of
  floating point.
\<close>

record observation =
  obs_date :: "date option"
  obs_datatype :: string
  obs_value :: rat

text \<open>
  Period starts are day ordinals. \<^verbatim>\<open>to_period("W-MON")\<close> is pandas' weekly frequency
  anchored on Monday: the anchor is the \<^emph>\<open>last\<close> day of the period, so the period of a day
  is the seven days ending on the first Monday on or after it, and \<^verbatim>\<open>start_time\<close> is
  the Tuesday six days before that Monday. Ordinal 1 (0001-01-01) is a Monday, so the
  Tuesdays are the ordinals congruent to 2 modulo 7.
  \<^verbatim>\<open>to_period("M").start_time\<close> is the first day of the calendar month.
\<close>

definition week_start_W_MON :: "date \<Rightarrow> int" where
  "week_start_W_MON d = toordinal d - (toordinal d - 2) mod 7"

definition month_start :: "date \<Rightarrow> int" where
  "month_start d = toordinal (Date (year d) (month d) 1)"

text \<open>
  The value that \<^verbatim>\<open>.dt.to_period(...).apply(lambda p: p.start_time.normalize())\<close> computes
  for one row. The period of a row whose date is \<^verbatim>\<open>NaT\<close> is \<^verbatim>\<open>NaT\<close>, which has no
  \<^verbatim>\<open>start_time\<close>: the lambda raises \<^verbatim>\<open>AttributeError\<close>.
\<close>

definition period_start :: "string \<Rightarrow> observation \<Rightarrow> exc + int" where
  "period_start freq ob =
     (case obs_date ob of
        None \<Rightarrow> Inl AttributeError
      | Some d \<Rightarrow> Inr (if freq = ''weekly'' then week_start_W_MON d else month_start d))"

text \<open>
  \<^verbatim>\<open>d["period_start"] = ...\<close>: the column is computed row by row, and the assignment
  raises when the lambda raises on a row. On success every row carries its period start.
\<close>

fun with_period_start :: "string \<Rightarrow> observation list \<Rightarrow> exc + (int \<times> observation) list" where
  "with_period_start freq [] = Inr []"
| "with_period_start freq (ob # rest) =
     (case period_start freq ob of
        Inl e \<Rightarrow> Inl e
      | Inr p \<Rightarrow>
          (case with_period_start freq rest of
             Inl e \<Rightarrow> Inl e
           | Inr rows \<Rightarrow> Inr ((p, ob) # rows)))"

definition label_col :: "string \<Rightarrow> string" where
  "label_col freq = (if freq = ''weekly'' then ''week_start'' else ''month_start'')"

definition sum_vars :: "string set" where
  "sum_vars = {''PRCP'', ''SNOW''}"

text \<open>
  \<^verbatim>\<open>groupby(["period_start", "datatype"], as_index=False)["value"]\<close> on rows that carry
  their period start: the group keys are the distinct (period, datatype) pairs in sorted
  order. \<^verbatim>\<open>.sum()\<close> and \<^verbatim>\<open>.mean()\<close> reduce the values of each group.
\<close>

definition group_keys :: "(int \<times> observation) list \<Rightarrow> (int \<times> string) list" where
  "group_keys rows = sort (remdups (map (\<lambda>r. (fst r, obs_datatype (snd r))) rows))"

definition group_values :: "(int \<times> observation) list \<Rightarrow> int \<times> string \<Rightarrow> rat list" where
  "group_values rows k =
     map (\<lambda>r. obs_value (snd r)) (filter (\<lambda>r. (fst r, obs_datatype (snd r)) = k) rows)"

definition mean :: "rat list \<Rightarrow> rat" where
  "mean vs = sum_list vs / of_nat (length vs)"

definition groupby_sum :: "(int \<times> observation) list \<Rightarrow> ((int \<times> string) \<times> rat) list" where
  "groupby_sum rows = map (\<lambda>k. (k, sum_list (group_values rows k))) (group_keys rows)"

definition groupby_mean :: "(int \<times> observation) list \<Rightarrow> ((int \<times> string) \<times> rat) list" where
  "groupby_mean rows = map (\<lambda>k. (k, mean (group_values rows k))) (group_keys rows)"

text \<open>
  A wide frame: the index (period starts), the column labels, and the cells that hold a
  value; a cell that is not listed is empty (\<^verbatim>\<open>NaN\<close>). \<^verbatim>\<open>pivot\<close> makes the sorted distinct
  periods the index and the sorted distinct datatypes the columns. \<^verbatim>\<open>pd.DataFrame()\<close>
  has neither rows nor columns; \<^verbatim>\<open>.empty\<close> holds when either axis has length 0.
\<close>

record wide =
  windex :: "int list"
  wcolumns :: "string list"
  wcells :: "((int \<times> string) \<times> rat) list"

definition empty_wide :: wide where
  "empty_wide = \<lparr>windex = [], wcolumns = [], wcells = []\<rparr>"

definition wide_empty :: "wide \<Rightarrow> bool" where
  "wide_empty w = (windex w = [] \<or> wcolumns w = [])"

definition pivot :: "((int \<times> string) \<times> rat) list \<Rightarrow> wide" where
  "pivot g =
     \<lparr>windex = sort (remdups (map (\<lambda>r. fst (fst r)) g)),
      wcolumns = sort (remdups (map (\<lambda>r. snd (fst r)) g)),
      wcells = g\<rparr>"

text \<open>
  \<^verbatim>\<open>wide_mean.join(wide_sum, how="outer")\<close>: the index is the sorted union of the two
  indexes, the columns are those of the left frame followed by those of the right. The
  two column sets are disjoint here (the mean variables exclude the sum variables), so no
  column label occurs on both sides.
\<close>

definition join_outer :: "wide \<Rightarrow> wide \<Rightarrow> wide" where
  "join_outer l r =
     \<lparr>windex = sort (remdups (windex l @ windex r)),
      wcolumns = wcolumns l @ wcolumns r,
      wcells = wcells l @ wcells r\<rparr>"

text \<open>
  The result table: the label column's name (\<open>None\<close> for the frame without columns),
  the variable columns in order, and one row per index entry with one cell per variable
  column (\<open>None\<close> is an empty cell).
\<close>

record table =
  tlabel :: "string option"
  tcolumns :: "string list"
  trows :: "(int \<times> rat option list) list"

definition empty_table :: table where
  "empty_table = \<lparr>tlabel = None, tcolumns = [], trows = []\<rparr>"

definition table_empty :: "table \<Rightarrow> bool" where
  "table_empty t = (trows t = [] \<or> tlabel t = None)"

text \<open>
  \<^verbatim>\<open>daily_to_period_station(daily_df, wanted_vars, freq)\<close>. The result is \<open>Inl e\<close> when the
  function raises \<open>e\<close>. The variable codes are GHCND datatype identifiers; the frame's own
  labels \<^verbatim>\<open>period_start\<close>, \<^verbatim>\<open>week_start\<close> and \<^verbatim>\<open>month_start\<close> are taken not to be among
  \<^verbatim>\<open>wanted_vars\<close> (\<open>no_label_clash\<close>), which is what keeps \<^verbatim>\<open>reset_index\<close>, \<^verbatim>\<open>rename\<close> and
  \<^verbatim>\<open>reindex\<close> to the plain case modelled here.
\<close>

definition no_label_clash :: "string list \<Rightarrow> bool" where
  "no_label_clash wanted_vars =
     (''period_start'' \<notin> set wanted_vars \<and> ''week_start'' \<notin> set wanted_vars \<and>
      ''month_start'' \<notin> set wanted_vars)"

definition g_sum :: "(int \<times> observation) list \<Rightarrow> ((int \<times> string) \<times> rat) list" where
  "g_sum d = groupby_sum (filter (\<lambda>r. obs_datatype (snd r) \<in> sum_vars) d)"

definition g_mean ::
  "string list \<Rightarrow> (int \<times> observation) list \<Rightarrow> ((int \<times> string) \<times> rat) list" where
  "g_mean wanted_vars d =
     groupby_mean (filter (\<lambda>r. obs_datatype (snd r) \<in> set wanted_vars - sum_vars) d)"

definition wide_sum_of :: "(int \<times> observation) list \<Rightarrow> wide" where
  "wide_sum_of d =
     (if filter (\<lambda>r. obs_datatype (snd r) \<in> sum_vars) d \<noteq> [] then pivot (g_sum d)
      else empty_wide)"

definition wide_mean_of :: "string list \<Rightarrow> (int \<times> observation) list \<Rightarrow> wide" where
  "wide_mean_of wanted_vars d =
     (if filter (\<lambda>r. obs_datatype (snd r) \<in> set wanted_vars - sum_vars) d \<noteq> []
      then pivot (g_mean wanted_vars d) else empty_wide)"

text \<open>\<^verbatim>\<open>wide_mean if wide_sum.empty else (wide_sum if wide_mean.empty else
  wide_mean.join(wide_sum, how="outer"))\<close>\<close>

definition merge_wide :: "wide \<Rightarrow> wide \<Rightarrow> wide" where
  "merge_wide wide_sum wide_mean =
     (if wide_empty wide_sum then wide_mean
      else if wide_empty wide_mean then wide_sum
      else join_outer wide_mean wide_sum)"

text \<open>\<^verbatim>\<open>reset_index\<close>, \<^verbatim>\<open>rename\<close> and \<^verbatim>\<open>reindex(columns=ordered)\<close>: the period becomes the
  label column and the variable columns follow in the order of \<^verbatim>\<open>wanted_vars\<close>.\<close>

definition reindex_table :: "string \<Rightarrow> string list \<Rightarrow> wide \<Rightarrow> table" where
  "reindex_table freq wanted_vars wd =
     (let ordered = filter (\<lambda>v. v \<in> set (wcolumns wd)) wanted_vars
      in \<lparr>tlabel = Some (label_col freq),
          tcolumns = ordered,
          trows = map (\<lambda>p. (p, map (\<lambda>v. map_of (wcells wd) (p, v)) ordered)) (windex wd)\<rparr>)"

definition daily_to_period_station ::
  "observation list \<Rightarrow> string list \<Rightarrow> string \<Rightarrow> exc + table" where
  "daily_to_period_station daily_df wanted_vars freq =
     (if daily_df = [] then Inr empty_table
      else
        let filtered = filter (\<lambda>ob. obs_datatype ob \<in> set wanted_vars) daily_df
        in if filtered = [] then Inr empty_table
           else
             (case with_period_start freq filtered of
                Inl e \<Rightarrow> Inl e
              | Inr d \<Rightarrow>
                  let wide_sum = wide_sum_of d;
                      wide_mean = wide_mean_of wanted_vars d
                  in if wide_empty wide_sum \<and> wide_empty wide_mean then Inr empty_table
                     else Inr (reindex_table freq wanted_vars
                                 (merge_wide wide_sum wide_mean))))"

text \<open>Reading a cell of the result: \<open>None\<close> when the table has no such row or column,
  \<open>Some None\<close> for an empty cell.\<close>

definition table_cell :: "table \<Rightarrow> int \<Rightarrow> string \<Rightarrow> rat option option" where
  "table_cell t p v =
     (case map_of (trows t) p of
        None \<Rightarrow> None
      | Some cs \<Rightarrow> map_of (zip (tcolumns t) cs) v)"

text \<open>
  The buckets in the spec's words, independent of the code: the weekly bucket of a date
  is the Monday on or before it, the monthly bucket the first day of its calendar month.
  \<open>bucket_values\<close> are the daily values of variable \<open>v\<close> whose date falls in the bucket
  with key \<open>p\<close>.
\<close>

definition monday_on_or_before :: "date \<Rightarrow> int" where
  "monday_on_or_before d = toordinal d - weekday d"

definition first_of_month :: "date \<Rightarrow> int" where
  "first_of_month d = toordinal (Date (year d) (month d) 1)"

definition spec_bucket :: "string \<Rightarrow> date \<Rightarrow> int" where
  "spec_bucket freq d = (if freq = ''weekly'' then monday_on_or_before d else first_of_month d)"

definition bucket_values :: "string \<Rightarrow> observation list \<Rightarrow> int \<Rightarrow> string \<Rightarrow> rat list" where
  "bucket_values freq daily_df p v =
     map obs_value
       (filter (\<lambda>ob. obs_datatype ob = v \<and>
                  (case obs_date ob of None \<Rightarrow> False | Some d \<Rightarrow> spec_bucket freq d = p))
          daily_df)"

text \<open>The values that the code groups under the key \<open>(p, v)\<close>: those of the rows of
  variable \<open>v\<close> whose \<open>period_start\<close> is \<open>p\<close>.\<close>

definition period_values :: "string \<Rightarrow> observation list \<Rightarrow> int \<Rightarrow> string \<Rightarrow> rat list" where
  "period_values freq daily_df p v =
     map obs_value
       (filter (\<lambda>ob. period_start freq ob = Inr p \<and> obs_datatype ob = v) daily_df)"

section \<open>The request helper\<close>

text \<open>
  \<^verbatim>\<open>req_json(path, token, params, max_retry=RETRY)\<close>. What the network does is an input:
  \<open>get n\<close> is what \<^verbatim>\<open>requests.get\<close> does on attempt \<open>n\<close>, either raising or returning a
  response with a status code and a body. The sleeps of \<^verbatim>\<open>backoff_sleep\<close> change no
  value and are left out. The result is \<open>Inl e\<close> when \<^verbatim>\<open>req_json\<close> raises \<open>e\<close>,
  \<open>Inr None\<close> for the literal \<^verbatim>\<open>{}\<close> and \<open>Inr (Some j)\<close> for the parsed body.
\<close>

datatype 'j body = EmptyBody | JsonBody 'j | MalformedBody

datatype 'j outcome = Raised exc | Response nat "'j body"

text \<open>The exceptions caught by
  \<^verbatim>\<open>except (requests.Timeout, requests.ConnectionError, requests.RequestException)\<close>.\<close>

fun is_request_exception :: "exc \<Rightarrow> bool" where
  "is_request_exception Timeout = True"
| "is_request_exception ConnectionError = True"
| "is_request_exception (HTTPError _) = True"
| "is_request_exception JSONDecodeError = True"
| "is_request_exception OtherRequestException = True"
| "is_request_exception _ = False"

definition RETRY :: nat where
  "RETRY = 3"

text \<open>
  The body of the \<^verbatim>\<open>for attempt in range(1, max_retry + 1)\<close> loop, with the statements
  after the loop as the case of the exhausted range. \<^verbatim>\<open>r.raise_for_status()\<close> raises an
  \<^verbatim>\<open>HTTPError\<close> for a status from 400 to 599, which the outer handler catches.
\<close>

fun req_loop :: "(nat \<Rightarrow> 'j outcome) \<Rightarrow> nat \<Rightarrow> nat list \<Rightarrow> exc option \<Rightarrow> exc + 'j option" where
  "req_loop get max_retry [] last_exc =
     (case last_exc of Some e \<Rightarrow> Inl e | None \<Rightarrow> Inl RuntimeError)"
| "req_loop get max_retry (attempt # rest) last_exc =
     (case get attempt of
        Raised e \<Rightarrow>
          if is_request_exception e
          then (if attempt < max_retry then req_loop get max_retry rest (Some e) else Inl e)
          else Inl e
      | Response status body \<Rightarrow>
          if status = 429 then req_loop get max_retry rest last_exc
          else if status \<in> {500, 502, 503, 504}
          then req_loop get max_retry rest (Some (HTTPError status))
          else if 400 \<le> status \<and> status < 600
          then (if attempt < max_retry
                then req_loop get max_retry rest (Some (HTTPError status))
                else Inl (HTTPError status))
          else if status = 204 then Inr None
          else (case body of
                  EmptyBody \<Rightarrow> Inr None
                | JsonBody j \<Rightarrow> Inr (Some j)
                | MalformedBody \<Rightarrow>
                    if attempt < max_retry
                    then req_loop get max_retry rest (Some JSONDecodeError)
                    else Inl JSONDecodeError))"

definition req_json :: "(nat \<Rightarrow> 'j outcome) \<Rightarrow> nat \<Rightarrow> exc + 'j option" where
  "req_json get max_retry = req_loop get max_retry [1 ..< max_retry + 1] None"

section \<open>The per-region pipeline of main\<close>

text \<open>
  The body of \<^verbatim>\<open>for fips in state_list\<close>. The file system is explicit state: the files
  with their contents and the log of the \<^verbatim>\<open>to_csv\<close> calls in order. A path is the file it
  names under the region's directory. The two fetching functions are inputs: \<open>listing\<close> is
  what \<^verbatim>\<open>list_stations_for_state\<close> returns or raises for the region, \<open>fetch\<close> what
  \<^verbatim>\<open>fetch_station_year\<close> returns or raises for a year slice.
\<close>

datatype path =
  StationsMetaCsv string
  | SelectedStationCsv string
  | PartCsv string string int
  | PeriodCsv string string

datatype content =
  StationRows "station list" | DailyRows "observation list" | PeriodTable table

record filesystem =
  files :: "path \<Rightarrow> content option"
  written :: "path list"

record args =
  arg_freq :: string
  arg_prefer_usw :: bool
  arg_save_raw :: bool
  arg_resume :: bool

definition to_csv :: "path \<Rightarrow> content \<Rightarrow> filesystem \<Rightarrow> filesystem" where
  "to_csv p c fs = fs\<lparr>files := (files fs)(p \<mapsto> c), written := written fs @ [p]\<rparr>"

text \<open>\<^verbatim>\<open>already_done\<close>: the file exists and is not of size 0. Every file of the model has
  content, so a file of size 0 is an absent one here.\<close>

definition already_done :: "filesystem \<Rightarrow> path \<Rightarrow> bool" where
  "already_done fs p = (files fs p \<noteq> None)"

definition read_csv :: "filesystem \<Rightarrow> path \<Rightarrow> exc + observation list" where
  "read_csv fs p =
     (case files fs p of Some (DailyRows rows) \<Rightarrow> Inr rows | _ \<Rightarrow> Inl OtherException)"

text \<open>The loop \<^verbatim>\<open>for ys, ye in year_slices(mind, maxd)\<close> with its three accumulators. Both
  handlers of the \<^verbatim>\<open>try\<close> continue with the next slice.\<close>

fun fetch_years ::
  "args \<Rightarrow> (date \<times> date \<Rightarrow> exc + observation list) \<Rightarrow> string \<Rightarrow> string \<Rightarrow>
   (date \<times> date) list \<Rightarrow> filesystem \<Rightarrow> path list \<Rightarrow> observation list list \<Rightarrow>
   filesystem \<times> path list \<times> observation list list" where
  "fetch_years a fetch fips sid [] fs per_year_paths all_daily_parts =
     (fs, per_year_paths, all_daily_parts)"
| "fetch_years a fetch fips sid (sl # rest) fs per_year_paths all_daily_parts =
     (let part_path = PartCsv fips sid (year (fst sl))
      in if arg_resume a \<and> already_done fs part_path
         then fetch_years a fetch fips sid rest fs (per_year_paths @ [part_path]) all_daily_parts
         else (case fetch sl of
                 Inl e \<Rightarrow> fetch_years a fetch fips sid rest fs per_year_paths all_daily_parts
               | Inr df \<Rightarrow>
                   if df = []
                   then (if arg_save_raw a
                         then fetch_years a fetch fips sid rest
                                (to_csv part_path (DailyRows df) fs)
                                (per_year_paths @ [part_path]) all_daily_parts
                         else fetch_years a fetch fips sid rest fs per_year_paths
                                all_daily_parts)
                   else (if arg_save_raw a
                         then fetch_years a fetch fips sid rest
                                (to_csv part_path (DailyRows df) fs)
                                (per_year_paths @ [part_path]) (all_daily_parts @ [df])
                         else fetch_years a fetch fips sid rest fs per_year_paths
                                (all_daily_parts @ [df]))))"

text \<open>\<^verbatim>\<open>[pd.read_csv(p) for p in per_year_paths if os.path.exists(p)]\<close>; a failing read
  raises out of the comprehension.\<close>

fun read_parts :: "filesystem \<Rightarrow> path list \<Rightarrow> exc + observation list list" where
  "read_parts fs [] = Inr []"
| "read_parts fs (p # ps) =
     (if files fs p = None then read_parts fs ps
      else (case read_csv fs p of
              Inl e \<Rightarrow> Inl e
            | Inr rows \<Rightarrow>
                (case read_parts fs ps of Inl e \<Rightarrow> Inl e | Inr frames \<Rightarrow> Inr (rows # frames))))"

text \<open>The merge of the daily parts; \<^verbatim>\<open>pd.concat\<close> of no frame raises \<^verbatim>\<open>ValueError\<close>.\<close>

definition merge_daily ::
  "args \<Rightarrow> filesystem \<Rightarrow> path list \<Rightarrow> observation list list \<Rightarrow> exc + observation list" where
  "merge_daily a fs per_year_paths all_daily_parts =
     (if arg_resume a \<and> arg_save_raw a \<and> per_year_paths \<noteq> []
      then (case read_parts fs per_year_paths of
              Inl e \<Rightarrow> Inl e
            | Inr frames \<Rightarrow> if frames = [] then Inl ValueError else Inr (concat frames))
      else Inr (if all_daily_parts \<noteq> [] then concat all_daily_parts else []))"

definition out_name :: "string \<Rightarrow> string" where
  "out_name freq =
     (if freq = ''weekly'' then ''weekly_selected_station.csv''
      else ''monthly_selected_station.csv'')"

text \<open>How the body of the loop ends for a region: one of the \<^verbatim>\<open>continue\<close> statements, the
  end of the body, or an exception that no handler of \<^verbatim>\<open>main\<close> catches.\<close>

datatype region_end =
  ListFailed | NoStations | NoRepresentative | NoDaily | EmptyAggregate | Done | Uncaught exc

text \<open>
  A selected station whose \<^verbatim>\<open>mindate\<close> or \<^verbatim>\<open>maxdate\<close> is \<^verbatim>\<open>NaT\<close> hands \<^verbatim>\<open>NaT\<close> to
  \<^verbatim>\<open>year_slices\<close>, whose comparisons of \<^verbatim>\<open>NaT\<close> with a \<^verbatim>\<open>date\<close> raise \<^verbatim>\<open>TypeError\<close>;
  nothing in \<^verbatim>\<open>main\<close> catches it. Nor does anything catch what \<^verbatim>\<open>pd.concat\<close>,
  \<^verbatim>\<open>pd.read_csv\<close> or \<^verbatim>\<open>daily_to_period_station\<close> raises: the run ends there and the
  region's period file is not written.
\<close>

definition process_region ::
  "args \<Rightarrow> string list \<Rightarrow> string \<Rightarrow> exc + station list \<Rightarrow>
   (date \<times> date \<Rightarrow> exc + observation list) \<Rightarrow> filesystem \<Rightarrow> filesystem \<times> region_end" where
  "process_region a wanted_vars fips listing fetch fs =
     (case listing of
        Inl e \<Rightarrow> (fs, ListFailed)
      | Inr stations \<Rightarrow>
          if stations = [] then (fs, NoStations)
          else
            let fs1 = to_csv (StationsMetaCsv fips) (StationRows stations) fs;
                rep = pick_representative_station stations (arg_prefer_usw a)
            in if rep = [] then (fs1, NoRepresentative)
               else
                 let sel = hd rep;
                     fs2 = to_csv (SelectedStationCsv fips) (StationRows rep) fs1
                 in if mindate sel = None \<or> maxdate sel = None then (fs2, Uncaught TypeError)
                    else
                      (case fetch_years a fetch fips (station_id sel)
                              (year_slices (mindate sel) (maxdate sel)) fs2 [] [] of
                         (fs3, per_year_paths, all_daily_parts) \<Rightarrow>
                           (case merge_daily a fs3 per_year_paths all_daily_parts of
                              Inl e \<Rightarrow> (fs3, Uncaught e)
                            | Inr daily_df \<Rightarrow>
                                if daily_df = [] then (fs3, NoDaily)
                                else
                                  (case daily_to_period_station daily_df wanted_vars
                                          (arg_freq a) of
                                     Inl e \<Rightarrow> (fs3, Uncaught e)
                                   | Inr agg \<Rightarrow>
                                       if table_empty agg then (fs3, EmptyAggregate)
                                       else (to_csv (PeriodCsv fips (out_name (arg_freq a)))
                                               (PeriodTable agg) fs3, Done)))))"

fun is_period_csv :: "path \<Rightarrow> bool" where
  "is_period_csv (PeriodCsv _ _) = True"
| "is_period_csv _ = False"

section \<open>Properties\<close>

subsection \<open>Calendar and year slices\<close>

lemma div_pred:
  fixes y k :: int
  assumes "0 < k"
  shows "(y - 1) div k = y div k - (if y mod k = 0 then 1 else 0)"
proof (cases "y mod k = 0")
  case True
  have "k * (y div k - 1) + (k - 1) = k * (y div k) + y mod k - 1"
    using True by (simp add: algebra_simps)
  also have "\<dots> = y - 1" by simp
  finally have "y - 1 = k * (y div k - 1) + (k - 1)" by simp
  moreover have "0 \<le> k - 1" "k - 1 < k" using assms by simp_all
  ultimately have "(y - 1) div k = y div k - 1"
    by (rule int_div_pos_eq)
  with True show ?thesis by simp
next
  case False
  have m: "0 \<le> y mod k" "y mod k < k" using assms by simp_all
  have "k * (y div k) + (y mod k - 1) = k * (y div k) + y mod k - 1"
    by simp
  also have "\<dots> = y - 1" by simp
  finally have "y - 1 = k * (y div k) + (y mod k - 1)" by simp
  moreover have "0 \<le> y mod k - 1" "y mod k - 1 < k" using m False by simp_all
  ultimately have "(y - 1) div k = y div k"
    by (rule int_div_pos_eq)
  with False show ?thesis by simp
qed

lemma dvd_chain_mod:
  fixes y a b :: int
  assumes "b dvd a" "y mod a = 0"
  shows "y mod b = 0"
  using assms by (meson dvd_trans mod_eq_0_iff_dvd)

lemma mod_400_100: "(y::int) mod 400 = 0 \<Longrightarrow> y mod 100 = 0"
  by (rule dvd_chain_mod [of 100 400]) simp_all

lemma mod_100_4: "(y::int) mod 100 = 0 \<Longrightarrow> y mod 4 = 0"
  by (rule dvd_chain_mod [of 4 100]) simp_all

lemma dby_step:
  "days_before_year (y + 1) = days_before_year y + 365 + (if is_leap y then 1 else 0)"
proof -
  have a: "(y - 1) div 4 = y div 4 - (if y mod 4 = 0 then 1 else 0)"
    by (rule div_pred) simp
  have b: "(y - 1) div 100 = y div 100 - (if y mod 100 = 0 then 1 else 0)"
    by (rule div_pred) simp
  have c: "(y - 1) div 400 = y div 400 - (if y mod 400 = 0 then 1 else 0)"
    by (rule div_pred) simp
  show ?thesis
    unfolding days_before_year_def is_leap_def
    using mod_400_100 [of y] mod_100_4 [of y]
    by (simp only: a b c add_diff_cancel_right' split: if_splits) auto
qed

lemma next_year_ordinal:
  "toordinal (Date (y + 1) 1 1) = toordinal (Date y 12 31) + 1"
  by (simp add: toordinal_def dby_step days_before_month_def DAYS_BEFORE_MONTH_def)

lemmas calendar_defs = toordinal_def days_before_year_def days_before_month_def
  DAYS_BEFORE_MONTH_def is_leap_def

lemmas prod_order_defs = less_eq_prod_def less_prod_def

lemma year_le_of_not_less: "\<not> date_less b a \<Longrightarrow> year a \<le> year b"
  by (auto simp: date_less_def)

lemmas year_slices_defs = year_slices_def date_less_def date_max_def date_min_def
  start_limit_def end_limit_def year_slice_def

lemma year_slices_example: "year_slices (Some (Date 2001 6 1)) (Some (Date 2026 3 1)) =
       map (\<lambda>y. (Date y 1 1, Date y 12 31)) [2002 .. 2025]"
  by (simp add: year_slices_defs)

lemma year_slices_some:
  assumes "\<not> date_less ma mi"
    and "\<not> date_less (date_min ma end_limit) (date_max mi start_limit)"
  shows "year_slices (Some mi) (Some ma) =
           map (year_slice (date_max mi start_limit) (date_min ma end_limit))
             [year (date_max mi start_limit) .. year (date_min ma end_limit)]"
  using assms by (simp add: year_slices_def Let_def)

text \<open>
  Claim C5. For every pair of dates, \<open>year_slices\<close> returns the partition by calendar year
  of the intersection of [mindate, maxdate] with [2002-01-01, 2025-12-31]: it is empty
  when the range is inverted or the intersection is empty (and when a bound is missing);
  otherwise there is one slice per year from the intersected start's year to the
  intersected end's (both inside the bound), in year order, the first starting at the
  intersected start, the last ending at the intersected end, every other start being
  January 1 and every other end December 31, each slice beginning on the day after the
  previous one ends. In particular \<open>year_slices\<close> of 2001-06-01 and 2026-03-01 is the 24
  full years 2002 to 2025.
\<close>

theorem year_slices_partition:
  "(let start = date_max mi start_limit;
        end = date_min ma end_limit;
        sl = year_slices (Some mi) (Some ma)
    in (date_less ma mi \<or> date_less end start \<longrightarrow> sl = []) \<and>
       (\<not> date_less ma mi \<and> \<not> date_less end start \<longrightarrow>
          \<not> date_less start start_limit \<and> \<not> date_less end_limit end \<and>
          length sl = nat (year end - year start + 1) \<and> sl \<noteq> [] \<and>
          fst (hd sl) = start \<and> snd (last sl) = end \<and>
          (\<forall>i < length sl.
             year (fst (sl ! i)) = year start + int i \<and>
             year (snd (sl ! i)) = year start + int i \<and>
             (0 < i \<longrightarrow> fst (sl ! i) = Date (year start + int i) 1 1) \<and>
             (i + 1 < length sl \<longrightarrow>
                snd (sl ! i) = Date (year start + int i) 12 31 \<and>
                toordinal (fst (sl ! (i + 1))) = toordinal (snd (sl ! i)) + 1)))) \<and>
   year_slices None maxd = [] \<and> year_slices mind None = [] \<and>
   year_slices (Some (Date 2001 6 1)) (Some (Date 2026 3 1)) =
     map (\<lambda>y. (Date y 1 1, Date y 12 31)) [2002 .. 2025] \<and>
   length (year_slices (Some (Date 2001 6 1)) (Some (Date 2026 3 1))) = 24"
proof -
  define start where "start = date_max mi start_limit"
  define end' where "end' = date_min ma end_limit"
  define sl where "sl = year_slices (Some mi) (Some ma)"
  have empty: "sl = []" if "date_less ma mi \<or> date_less end' start"
    using that by (auto simp: sl_def start_def end'_def year_slices_def Let_def)
  have nonempty:
    "\<not> date_less start start_limit \<and> \<not> date_less end_limit end' \<and>
     length sl = nat (year end' - year start + 1) \<and> sl \<noteq> [] \<and>
     fst (hd sl) = start \<and> snd (last sl) = end' \<and>
     (\<forall>i < length sl.
        year (fst (sl ! i)) = year start + int i \<and>
        year (snd (sl ! i)) = year start + int i \<and>
        (0 < i \<longrightarrow> fst (sl ! i) = Date (year start + int i) 1 1) \<and>
        (i + 1 < length sl \<longrightarrow>
           snd (sl ! i) = Date (year start + int i) 12 31 \<and>
           toordinal (fst (sl ! (i + 1))) = toordinal (snd (sl ! i)) + 1))"
    if h: "\<not> date_less ma mi" "\<not> date_less end' start"
  proof -
    have le: "year start \<le> year end'"
      using h(2) by (rule year_le_of_not_less)
    have sl: "sl = map (year_slice start end') [year start .. year end']"
      unfolding sl_def start_def end'_def
      using h unfolding start_def end'_def by (rule year_slices_some)
    have len: "length sl = nat (year end' - year start + 1)"
      by (simp add: sl)
    have ne: "sl \<noteq> []"
      using le len by auto
    have nth: "sl ! i = year_slice start end' (year start + int i)" if "i < length sl" for i
      using that by (simp add: sl)
    have first: "fst (hd sl) = start"
      using le by (simp add: sl upto.simps [of "year start" "year end'"] year_slice_def)
    have last: "snd (last sl) = end'"
      using le by (simp add: sl upto_rec2 [of "year start" "year end'"] year_slice_def)
    have each:
      "year (fst (sl ! i)) = year start + int i \<and>
       year (snd (sl ! i)) = year start + int i \<and>
       (0 < i \<longrightarrow> fst (sl ! i) = Date (year start + int i) 1 1) \<and>
       (i + 1 < length sl \<longrightarrow>
          snd (sl ! i) = Date (year start + int i) 12 31 \<and>
          toordinal (fst (sl ! (i + 1))) = toordinal (snd (sl ! i)) + 1)"
      if i: "i < length sl" for i
    proof -
      have bound: "year start + int i \<le> year end'"
        using i len by simp
      have y1: "year (fst (sl ! i)) = year start + int i"
        by (simp add: nth [OF i] year_slice_def)
      have y2: "year (snd (sl ! i)) = year start + int i"
        using bound by (auto simp: nth [OF i] year_slice_def)
      have f: "fst (sl ! i) = Date (year start + int i) 1 1" if "0 < i"
        using that by (simp add: nth [OF i] year_slice_def)
      have s: "snd (sl ! i) = Date (year start + int i) 12 31 \<and>
               toordinal (fst (sl ! (i + 1))) = toordinal (snd (sl ! i)) + 1"
        if i1: "i + 1 < length sl"
      proof -
        have lt: "year start + int i < year end'"
          using i1 len by simp
        have a: "snd (sl ! i) = Date (year start + int i) 12 31"
          using lt by (simp add: nth [OF i] year_slice_def)
        have b: "fst (sl ! (i + 1)) = Date (year start + int i + 1) 1 1"
          using nth [OF i1] by (simp add: year_slice_def add.assoc)
        show ?thesis
          by (simp only: a b next_year_ordinal)
      qed
      show ?thesis using y1 y2 f s by blast
    qed
    have inside: "\<not> date_less start start_limit" "\<not> date_less end_limit end'"
      by (auto simp: start_def end'_def date_max_def date_min_def date_less_def)
    show ?thesis using inside len ne first last each by blast
  qed
  have none: "year_slices None maxd = []" "year_slices mind None = []"
    by (simp_all add: year_slices_def split: option.splits)
  have ex: "year_slices (Some (Date 2001 6 1)) (Some (Date 2026 3 1)) =
     map (\<lambda>y. (Date y 1 1, Date y 12 31)) [2002 .. 2025]"
    by (rule year_slices_example)
  have ex_len: "length (year_slices (Some (Date 2001 6 1)) (Some (Date 2026 3 1))) = 24"
    by (simp only: ex length_map length_upto)
  show ?thesis
    unfolding Let_def
    using empty nonempty none ex ex_len
    unfolding start_def end'_def sl_def by blast
qed

text \<open>The theorem at 2010-03-15 .. 2012-07-04 (three slices, the outer two partial) and at
  1990-01-01 .. 1995-01-01 (outside the bound).\<close>

theorem year_slices_partition_witness:
  "\<not> date_less (Date 2012 7 4) (Date 2010 3 15) \<and>
   \<not> date_less (date_min (Date 2012 7 4) end_limit) (date_max (Date 2010 3 15) start_limit) \<and>
   year_slices (Some (Date 2010 3 15)) (Some (Date 2012 7 4)) =
     [(Date 2010 3 15, Date 2010 12 31), (Date 2011 1 1, Date 2011 12 31),
      (Date 2012 1 1, Date 2012 7 4)] \<and>
   toordinal (Date 2011 1 1) = toordinal (Date 2010 12 31) + 1 \<and>
   date_less (date_min (Date 1995 1 1) end_limit) (date_max (Date 1990 1 1) start_limit) \<and>
   year_slices (Some (Date 1990 1 1)) (Some (Date 1995 1 1)) = []"
  using year_slices_partition [of "Date 2010 3 15" "Date 2012 7 4"]
    year_slices_partition [of "Date 1990 1 1" "Date 1995 1 1"]
  by (simp add: year_slices_defs calendar_defs)

subsection \<open>Weekly buckets\<close>

lemma week_start_mod: "(n - (n - 2) mod 7 + 6) mod 7 = (1::int)"
proof -
  have "n - (n - 2) mod 7 + 6 = 7 * ((n - 2) div 7 + 1) + 1"
    by (simp add: minus_mod_eq_mult_div [symmetric])
  also have "\<dots> mod 7 = 1"
    by (simp only: mod_mult_self4) simp
  finally show ?thesis .
qed

text \<open>
  Claim C1. The claim says that the weekly aggregator buckets every observation to the
  Monday on or before its date: a Wednesday to the Monday of its week, a Monday to itself.
  The code does not: the start of a \<^verbatim>\<open>W-MON\<close> period is always a Tuesday (weekday 1).
  Wednesday 2024-01-03 is bucketed to Tuesday 2024-01-02, not to Monday 2024-01-01, and
  Monday 2024-01-08 is bucketed to Tuesday 2024-01-02, six days earlier, not to itself.
\<close>

theorem weekly_bucket_starts_on_tuesday:
  "(week_start_W_MON d + 6) mod 7 = 1 \<and>
   weekday (Date 2024 1 3) = 2 \<and>
   period_start ''weekly''
     \<lparr>obs_date = Some (Date 2024 1 3), obs_datatype = ''TMAX'', obs_value = 1\<rparr> =
     Inr (toordinal (Date 2024 1 2)) \<and>
   weekday (Date 2024 1 2) = 1 \<and>
   weekday (Date 2024 1 1) = 0 \<and>
   toordinal (Date 2024 1 2) \<noteq> toordinal (Date 2024 1 1) \<and>
   weekday (Date 2024 1 8) = 0 \<and>
   period_start ''weekly''
     \<lparr>obs_date = Some (Date 2024 1 8), obs_datatype = ''TMAX'', obs_value = 1\<rparr> =
     Inr (toordinal (Date 2024 1 2)) \<and>
   toordinal (Date 2024 1 2) \<noteq> toordinal (Date 2024 1 8)"
proof -
  have "(week_start_W_MON d + 6) mod 7 = 1"
    unfolding week_start_W_MON_def by (rule week_start_mod)
  moreover have
    "weekday (Date 2024 1 3) = 2 \<and>
     period_start ''weekly''
       \<lparr>obs_date = Some (Date 2024 1 3), obs_datatype = ''TMAX'', obs_value = 1\<rparr> =
       Inr (toordinal (Date 2024 1 2)) \<and>
     weekday (Date 2024 1 2) = 1 \<and>
     weekday (Date 2024 1 1) = 0 \<and>
     toordinal (Date 2024 1 2) \<noteq> toordinal (Date 2024 1 1) \<and>
     weekday (Date 2024 1 8) = 0 \<and>
     period_start ''weekly''
       \<lparr>obs_date = Some (Date 2024 1 8), obs_datatype = ''TMAX'', obs_value = 1\<rparr> =
       Inr (toordinal (Date 2024 1 2)) \<and>
     toordinal (Date 2024 1 2) \<noteq> toordinal (Date 2024 1 8)"
    by (simp add: weekday_def period_start_def week_start_W_MON_def calendar_defs)
  ultimately show ?thesis by simp
qed

subsection \<open>The selector\<close>

lemma key_le_iff_precedes: "sort_values_key w \<le> sort_values_key c \<longleftrightarrow> precedes w c"
  by (auto simp: sort_values_key_def precedes_def earlier_start_def same_start_def mindate_key_def
      less_eq_prod_def less_prod_def split: option.splits)

lemma hd_sort_key_min:
  fixes f :: "'a \<Rightarrow> 'k::linorder"
  assumes "xs \<noteq> []"
  shows "hd (sort_key f xs) \<in> set xs \<and> (\<forall>x \<in> set xs. f (hd (sort_key f xs)) \<le> f x)"
proof -
  obtain y ys where ys: "sort_key f xs = y # ys"
    using assms by (cases "sort_key f xs") (auto dest: arg_cong [where f = length])
  have "set (y # ys) = set xs"
    using ys set_sort [of f xs] by simp
  moreover have "sorted (map f (y # ys))"
    using ys sorted_sort_key [of f xs] by simp
  ultimately show ?thesis
    unfolding ys by auto
qed

lemma select_min:
  assumes "df \<noteq> []"
  shows "\<exists>w. select df = [w] \<and> w \<in> set df \<and> (\<forall>c \<in> set df. sort_values_key w \<le> sort_values_key c)"
proof -
  have ne: "sort_key sort_values_key df \<noteq> []"
    using assms by (auto dest: arg_cong [where f = length])
  then have "take 1 (sort_key sort_values_key df) = [hd (sort_key sort_values_key df)]"
    by (cases "sort_key sort_values_key df") simp_all
  then show ?thesis
    using assms hd_sort_key_min [OF assms, of sort_values_key] by (simp add: select_def)
qed

lemma cand_pool_subset: "set (cand_pool stations p) \<subseteq> set stations"
  by (auto simp: cand_pool_def)

lemma cand_pool_nonempty: "stations \<noteq> [] \<Longrightarrow> cand_pool stations p \<noteq> []"
  by (auto simp: cand_pool_def filter_empty_conv)

lemma tol_pos: "0 < tol"
  by (simp add: tol_def)

lemma max_cov_attained:
  assumes "max_cov cand = Some m"
  shows "\<exists>s \<in> set cand. datacoverage s = Some m"
proof -
  let ?cs = "List.map_filter datacoverage cand"
  have ne: "?cs \<noteq> []" and m: "m = Max (set ?cs)"
    using assms by (auto simp: max_cov_def Let_def split: if_splits)
  have "Max (set ?cs) \<in> set ?cs"
    using ne by (intro Max_in) auto
  then show ?thesis
    unfolding m by (auto simp: map_filter_def)
qed

lemma pick_is_select:
  assumes "stations \<noteq> []"
  shows "\<exists>P. pick_representative_station stations p = select (filter P (cand_pool stations p)) \<and>
             filter P (cand_pool stations p) \<noteq> [] \<and>
             (\<forall>a b. datacoverage a = datacoverage b \<longrightarrow> P a = P b) \<and>
             (filter (cov_ge (1 - tol)) (cand_pool stations p) \<noteq> [] \<longrightarrow> P = cov_ge (1 - tol))"
proof (cases "filter (cov_ge (1 - tol)) (cand_pool stations p) \<noteq> []")
  case True
  then show ?thesis
    using assms
    by (intro exI [of _ "cov_ge (1 - tol)"]) (simp add: pick_representative_station_def cov_ge_def)
next
  case False
  show ?thesis
  proof (cases "max_cov (cand_pool stations p)")
    case None
    have "filter (\<lambda>_. True) (cand_pool stations p) \<noteq> []"
      using cand_pool_nonempty [OF assms] by simp
    then show ?thesis
      using assms False None
      by (intro exI [of _ "\<lambda>_. True"]) (simp add: pick_representative_station_def)
  next
    case (Some m)
    obtain s where s: "s \<in> set (cand_pool stations p)" "datacoverage s = Some m"
      using max_cov_attained [OF Some] by blast
    have "cov_between (m - tol) (m + tol) s"
      using s tol_pos by (simp add: cov_between_def)
    then have "filter (cov_between (m - tol) (m + tol)) (cand_pool stations p) \<noteq> []"
      using s by (auto simp: filter_empty_conv)
    then show ?thesis
      using assms False Some
      by (intro exI [of _ "cov_between (m - tol) (m + tol)"])
        (simp add: pick_representative_station_def cov_between_def)
  qed
qed

lemma pick_singleton:
  assumes "stations \<noteq> []"
  shows "\<exists>w. pick_representative_station stations p = [w]"
proof -
  obtain P where P: "pick_representative_station stations p = select (filter P (cand_pool stations p))"
    "filter P (cand_pool stations p) \<noteq> []"
    using pick_is_select [OF assms] by blast
  show ?thesis
    using select_min [OF P(2)] P(1) by auto
qed

lemmas pick_defs = pick_representative_station_def cand_pool_def cov_ge_def cov_between_def
  max_cov_def tol_def select_def sort_values_key_def mindate_key_def is_usw_def startswith_def
  span_days_def List.map_filter_def

lemma near_complete_cov_ge: "near_complete s \<Longrightarrow> cov_ge (1 - tol) s"
  by (auto simp: near_complete_def cov_ge_def split: option.splits)

lemma cov_ge_near_complete: "cov_ge (1 - tol) s \<Longrightarrow> coverage_in_unit s \<Longrightarrow> near_complete s"
  by (auto simp: near_complete_def cov_ge_def coverage_in_unit_def split: option.splits)

text \<open>
  Claim C2. For every station pool, if a candidate (a station of the pool, after the
  restriction to USW stations when that is asked for and possible) has a coverage within
  \<open>tol\<close> of 1, the selector returns one station, it is a candidate, and its coverage is at
  least \<open>1 - tol\<close>: it never comes from a candidate with lower coverage. With every
  coverage of the pool in [0, 1], as the data model has it, the winner's coverage is
  within \<open>tol\<close> of 1.
\<close>

theorem near_complete_wins:
  assumes "\<exists>s \<in> set (cand_pool stations p). near_complete s"
  shows "\<exists>w. pick_representative_station stations p = [w] \<and>
             w \<in> set (cand_pool stations p) \<and> cov_ge (1 - tol) w \<and>
             ((\<forall>s \<in> set stations. coverage_in_unit s) \<longrightarrow> near_complete w)"
proof -
  obtain s where s: "s \<in> set (cand_pool stations p)" "near_complete s"
    using assms by blast
  have ne: "stations \<noteq> []"
    using s(1) cand_pool_subset [of stations p] by auto
  have cov1: "filter (cov_ge (1 - tol)) (cand_pool stations p) \<noteq> []"
    using s near_complete_cov_ge by (auto simp: filter_empty_conv)
  have pick: "pick_representative_station stations p =
                select (filter (cov_ge (1 - tol)) (cand_pool stations p))"
    using ne cov1 by (simp add: pick_representative_station_def)
  obtain w where w: "select (filter (cov_ge (1 - tol)) (cand_pool stations p)) = [w]"
    "w \<in> set (filter (cov_ge (1 - tol)) (cand_pool stations p))"
    using select_min [OF cov1] by blast
  have in_pool: "w \<in> set (cand_pool stations p)" and ge: "cov_ge (1 - tol) w"
    using w(2) by simp_all
  have "near_complete w" if "\<forall>s \<in> set stations. coverage_in_unit s"
    using that in_pool cand_pool_subset [of stations p] ge cov_ge_near_complete by blast
  then have "(\<forall>s \<in> set stations. coverage_in_unit s) \<longrightarrow> near_complete w"
    by simp
  then show ?thesis
    using pick w(1) in_pool ge by (intro exI [of _ w]) simp
qed

text \<open>A pool of two: the longer-running station has coverage 1/2, the other coverage 1.\<close>

theorem near_complete_wins_witness:
  "(\<exists>s \<in> set (cand_pool
       [\<lparr>station_id = ''GHCND:USC00010001'', mindate = Some (Date 1990 1 1),
          maxdate = Some (Date 2020 1 1), datacoverage = Some (1 / 2)\<rparr>,
        \<lparr>station_id = ''GHCND:USC00010002'', mindate = Some (Date 2000 1 1),
          maxdate = Some (Date 2010 1 1), datacoverage = Some 1\<rparr>] False). near_complete s) \<and>
   pick_representative_station
       [\<lparr>station_id = ''GHCND:USC00010001'', mindate = Some (Date 1990 1 1),
          maxdate = Some (Date 2020 1 1), datacoverage = Some (1 / 2)\<rparr>,
        \<lparr>station_id = ''GHCND:USC00010002'', mindate = Some (Date 2000 1 1),
          maxdate = Some (Date 2010 1 1), datacoverage = Some 1\<rparr>] False =
       [\<lparr>station_id = ''GHCND:USC00010002'', mindate = Some (Date 2000 1 1),
          maxdate = Some (Date 2010 1 1), datacoverage = Some 1\<rparr>] \<and>
   near_complete \<lparr>station_id = ''GHCND:USC00010002'', mindate = Some (Date 2000 1 1),
          maxdate = Some (Date 2010 1 1), datacoverage = Some 1\<rparr>"
  using near_complete_wins [of
       "[\<lparr>station_id = ''GHCND:USC00010001'', mindate = Some (Date 1990 1 1),
          maxdate = Some (Date 2020 1 1), datacoverage = Some (1 / 2)\<rparr>,
        \<lparr>station_id = ''GHCND:USC00010002'', mindate = Some (Date 2000 1 1),
          maxdate = Some (Date 2010 1 1), datacoverage = Some 1\<rparr>]" False]
  by (simp add: pick_defs prod_order_defs calendar_defs near_complete_def coverage_in_unit_def)

lemma key_less_tie:
  assumes "is_usw a = is_usw b" "span_days a = span_days b" "same_start a b"
    and "station_id a < station_id b"
  shows "sort_values_key a < sort_values_key b"
  using assms
  by (auto simp: sort_values_key_def same_start_def mindate_key_def less_prod_def
      split: option.splits)

text \<open>
  Claim C4 as stated fails: two candidates with equal coverage, equal flag and equal span
  (365 days) but different start dates; the selector picks the one that starts earlier,
  whose identifier is the lexically larger one.
\<close>

theorem tie_break_counterexample:
  "datacoverage \<lparr>station_id = ''GHCND:USC00000002'', mindate = Some (Date 2001 1 1),
      maxdate = Some (Date 2002 1 1), datacoverage = Some 1\<rparr> =
   datacoverage \<lparr>station_id = ''GHCND:USC00000001'', mindate = Some (Date 2002 1 1),
      maxdate = Some (Date 2003 1 1), datacoverage = Some 1\<rparr> \<and>
   is_usw \<lparr>station_id = ''GHCND:USC00000002'', mindate = Some (Date 2001 1 1),
      maxdate = Some (Date 2002 1 1), datacoverage = Some 1\<rparr> =
   is_usw \<lparr>station_id = ''GHCND:USC00000001'', mindate = Some (Date 2002 1 1),
      maxdate = Some (Date 2003 1 1), datacoverage = Some 1\<rparr> \<and>
   span_days \<lparr>station_id = ''GHCND:USC00000002'', mindate = Some (Date 2001 1 1),
      maxdate = Some (Date 2002 1 1), datacoverage = Some 1\<rparr> =
   span_days \<lparr>station_id = ''GHCND:USC00000001'', mindate = Some (Date 2002 1 1),
      maxdate = Some (Date 2003 1 1), datacoverage = Some 1\<rparr> \<and>
   ''GHCND:USC00000001'' < ''GHCND:USC00000002'' \<and>
   pick_representative_station
     [\<lparr>station_id = ''GHCND:USC00000001'', mindate = Some (Date 2002 1 1),
        maxdate = Some (Date 2003 1 1), datacoverage = Some 1\<rparr>,
      \<lparr>station_id = ''GHCND:USC00000002'', mindate = Some (Date 2001 1 1),
        maxdate = Some (Date 2002 1 1), datacoverage = Some 1\<rparr>] False =
     [\<lparr>station_id = ''GHCND:USC00000002'', mindate = Some (Date 2001 1 1),
        maxdate = Some (Date 2002 1 1), datacoverage = Some 1\<rparr>]"
  by (simp add: pick_defs prod_order_defs calendar_defs)

text \<open>
  Claim C4, as amended. Of two candidates with equal coverage, equal preferred-network
  flag, equal span in days and equal earliest start date, the one with the lexically
  larger identifier is never picked. Within a subset, \<open>select\<close> returns the first in the
  order descending by (preferred-network flag, span days), then ascending by (earliest
  start date, identifier): the station it returns is in the subset and precedes or ties
  with every station of the subset; and the selector's result is \<open>select\<close> of a non-empty
  subset of the candidates.
\<close>

theorem tie_break_order:
  "(a \<in> set (cand_pool stations p) \<and> b \<in> set (cand_pool stations p) \<and>
    datacoverage a = datacoverage b \<and> is_usw a = is_usw b \<and> span_days a = span_days b \<and>
    same_start a b \<and> station_id a < station_id b
      \<longrightarrow> pick_representative_station stations p \<noteq> [b]) \<and>
   (select df = [w] \<longrightarrow> w \<in> set df \<and> (\<forall>c \<in> set df. precedes w c)) \<and>
   (df \<noteq> [] \<longrightarrow> (\<exists>w. select df = [w])) \<and>
   (stations \<noteq> [] \<longrightarrow>
      (\<exists>sub. sub \<noteq> [] \<and> set sub \<subseteq> set (cand_pool stations p) \<and>
             pick_representative_station stations p = select sub))"
proof -
  have tie: "pick_representative_station stations p \<noteq> [b]"
    if h: "a \<in> set (cand_pool stations p)" "b \<in> set (cand_pool stations p)"
      "datacoverage a = datacoverage b" "is_usw a = is_usw b" "span_days a = span_days b"
      "same_start a b" "station_id a < station_id b"
  proof -
    have ne: "stations \<noteq> []"
      using h(1) cand_pool_subset [of stations p] by auto
    obtain P where P: "pick_representative_station stations p = select (filter P (cand_pool stations p))"
      "filter P (cand_pool stations p) \<noteq> []" "P a = P b"
      using pick_is_select [OF ne, of p] h(3) by blast
    obtain v where v: "select (filter P (cand_pool stations p)) = [v]"
      "v \<in> set (filter P (cand_pool stations p))"
      "\<forall>c \<in> set (filter P (cand_pool stations p)). sort_values_key v \<le> sort_values_key c"
      using select_min [OF P(2)] by blast
    have "v \<noteq> b"
    proof
      assume vb: "v = b"
      then have "P b" using v(2) by simp
      then have "a \<in> set (filter P (cand_pool stations p))"
        using P(3) h(1) by simp
      then have "sort_values_key b \<le> sort_values_key a"
        using v(3) vb by blast
      moreover have "sort_values_key a < sort_values_key b"
        using h(4-7) by (rule key_less_tie)
      ultimately show False by simp
    qed
    then show ?thesis using P(1) v(1) by simp
  qed
  have order: "w \<in> set df \<and> (\<forall>c \<in> set df. precedes w c)" if s: "select df = [w]"
  proof -
    have ne: "df \<noteq> []" using s by (auto simp: select_def)
    obtain v where v: "select df = [v]" "v \<in> set df"
      "\<forall>c \<in> set df. sort_values_key v \<le> sort_values_key c"
      using select_min [OF ne] by blast
    have "v = w" using s v(1) by simp
    then show ?thesis using v(2,3) by (simp add: key_le_iff_precedes)
  qed
  have one: "\<exists>w. select df = [w]" if "df \<noteq> []"
    using select_min [OF that] by blast
  have sub: "\<exists>sub. sub \<noteq> [] \<and> set sub \<subseteq> set (cand_pool stations p) \<and>
             pick_representative_station stations p = select sub" if ne: "stations \<noteq> []"
  proof -
    obtain P where P: "pick_representative_station stations p = select (filter P (cand_pool stations p))"
      "filter P (cand_pool stations p) \<noteq> []"
      using pick_is_select [OF ne, of p] by blast
    show ?thesis
      using P by (intro exI [of _ "filter P (cand_pool stations p)"]) auto
  qed
  show ?thesis using tie order one sub by blast
qed

text \<open>Two stations that differ in the identifier only.\<close>

theorem tie_break_order_witness:
  "\<lparr>station_id = ''GHCND:USC00000001'', mindate = Some (Date 2001 1 1),
      maxdate = Some (Date 2002 1 1), datacoverage = Some 1\<rparr>
     \<in> set (cand_pool
       [\<lparr>station_id = ''GHCND:USC00000002'', mindate = Some (Date 2001 1 1),
          maxdate = Some (Date 2002 1 1), datacoverage = Some 1\<rparr>,
        \<lparr>station_id = ''GHCND:USC00000001'', mindate = Some (Date 2001 1 1),
          maxdate = Some (Date 2002 1 1), datacoverage = Some 1\<rparr>] False) \<and>
   same_start
     \<lparr>station_id = ''GHCND:USC00000001'', mindate = Some (Date 2001 1 1),
        maxdate = Some (Date 2002 1 1), datacoverage = Some 1\<rparr>
     \<lparr>station_id = ''GHCND:USC00000002'', mindate = Some (Date 2001 1 1),
        maxdate = Some (Date 2002 1 1), datacoverage = Some 1\<rparr> \<and>
   ''GHCND:USC00000001'' < ''GHCND:USC00000002'' \<and>
   pick_representative_station
       [\<lparr>station_id = ''GHCND:USC00000002'', mindate = Some (Date 2001 1 1),
          maxdate = Some (Date 2002 1 1), datacoverage = Some 1\<rparr>,
        \<lparr>station_id = ''GHCND:USC00000001'', mindate = Some (Date 2001 1 1),
          maxdate = Some (Date 2002 1 1), datacoverage = Some 1\<rparr>] False \<noteq>
     [\<lparr>station_id = ''GHCND:USC00000002'', mindate = Some (Date 2001 1 1),
        maxdate = Some (Date 2002 1 1), datacoverage = Some 1\<rparr>] \<and>
   select
       [\<lparr>station_id = ''GHCND:USC00000002'', mindate = Some (Date 2001 1 1),
          maxdate = Some (Date 2002 1 1), datacoverage = Some 1\<rparr>,
        \<lparr>station_id = ''GHCND:USC00000001'', mindate = Some (Date 2001 1 1),
          maxdate = Some (Date 2002 1 1), datacoverage = Some 1\<rparr>] =
     [\<lparr>station_id = ''GHCND:USC00000001'', mindate = Some (Date 2001 1 1),
        maxdate = Some (Date 2002 1 1), datacoverage = Some 1\<rparr>] \<and>
   precedes
     \<lparr>station_id = ''GHCND:USC00000001'', mindate = Some (Date 2001 1 1),
        maxdate = Some (Date 2002 1 1), datacoverage = Some 1\<rparr>
     \<lparr>station_id = ''GHCND:USC00000002'', mindate = Some (Date 2001 1 1),
        maxdate = Some (Date 2002 1 1), datacoverage = Some 1\<rparr>"
  using tie_break_order [where
      a = "\<lparr>station_id = ''GHCND:USC00000001'', mindate = Some (Date 2001 1 1),
        maxdate = Some (Date 2002 1 1), datacoverage = Some 1\<rparr>" and
      b = "\<lparr>station_id = ''GHCND:USC00000002'', mindate = Some (Date 2001 1 1),
        maxdate = Some (Date 2002 1 1), datacoverage = Some 1\<rparr>" and
      p = False and
      stations = "[\<lparr>station_id = ''GHCND:USC00000002'', mindate = Some (Date 2001 1 1),
          maxdate = Some (Date 2002 1 1), datacoverage = Some 1\<rparr>,
        \<lparr>station_id = ''GHCND:USC00000001'', mindate = Some (Date 2001 1 1),
          maxdate = Some (Date 2002 1 1), datacoverage = Some 1\<rparr>]" and
      df = "[\<lparr>station_id = ''GHCND:USC00000002'', mindate = Some (Date 2001 1 1),
          maxdate = Some (Date 2002 1 1), datacoverage = Some 1\<rparr>,
        \<lparr>station_id = ''GHCND:USC00000001'', mindate = Some (Date 2001 1 1),
          maxdate = Some (Date 2002 1 1), datacoverage = Some 1\<rparr>]" and
      w = "\<lparr>station_id = ''GHCND:USC00000001'', mindate = Some (Date 2001 1 1),
        maxdate = Some (Date 2002 1 1), datacoverage = Some 1\<rparr>"]
  by (simp add: pick_defs prod_order_defs calendar_defs same_start_def precedes_def earlier_start_def)

text \<open>
  Claim C10. For every non-empty station pool the selector returns exactly one station,
  whatever the coverages are (also when all are undefined); it is a station of the pool,
  so its identifier is the identifier of a station of the pool.
\<close>

theorem pick_returns_one:
  assumes "stations \<noteq> []"
  shows "\<exists>w. pick_representative_station stations p = [w] \<and> w \<in> set stations \<and>
             station_id w \<in> station_id ` set stations"
proof -
  obtain P where P: "pick_representative_station stations p = select (filter P (cand_pool stations p))"
    "filter P (cand_pool stations p) \<noteq> []"
    using pick_is_select [OF assms] by blast
  obtain w where w: "select (filter P (cand_pool stations p)) = [w]"
    "w \<in> set (filter P (cand_pool stations p))"
    using select_min [OF P(2)] by blast
  have "w \<in> set stations"
    using w(2) cand_pool_subset [of stations p] by auto
  then show ?thesis
    using P(1) w(1) by auto
qed

text \<open>A pool whose coverages are all undefined; one station has no dates either.\<close>

theorem pick_returns_one_witness:
  "[\<lparr>station_id = ''GHCND:USC00020001'', mindate = None, maxdate = None,
      datacoverage = None\<rparr>,
    \<lparr>station_id = ''GHCND:USC00020002'', mindate = Some (Date 2000 1 1),
      maxdate = Some (Date 2001 1 1), datacoverage = None\<rparr>] \<noteq> [] \<and>
   pick_representative_station
     [\<lparr>station_id = ''GHCND:USC00020001'', mindate = None, maxdate = None,
        datacoverage = None\<rparr>,
      \<lparr>station_id = ''GHCND:USC00020002'', mindate = Some (Date 2000 1 1),
        maxdate = Some (Date 2001 1 1), datacoverage = None\<rparr>] False =
     [\<lparr>station_id = ''GHCND:USC00020002'', mindate = Some (Date 2000 1 1),
        maxdate = Some (Date 2001 1 1), datacoverage = None\<rparr>]"
  using pick_returns_one [of
     "[\<lparr>station_id = ''GHCND:USC00020001'', mindate = None, maxdate = None,
        datacoverage = None\<rparr>,
      \<lparr>station_id = ''GHCND:USC00020002'', mindate = Some (Date 2000 1 1),
        maxdate = Some (Date 2001 1 1), datacoverage = None\<rparr>]" False]
  by (simp add: pick_defs prod_order_defs calendar_defs)

subsection \<open>The aggregator\<close>

lemma map_of_map_key:
  "map_of (map (\<lambda>k. (k, f k)) ks) k = (if k \<in> set ks then Some (f k) else None)"
  by (induction ks) auto

lemma map_of_zip_map:
  "map_of (zip xs (map f xs)) v = (if v \<in> set xs then Some (f v) else None)"
  by (induction xs) auto

lemma with_period_start_rows:
  "with_period_start freq rows = Inr rs \<Longrightarrow>
     map snd rs = rows \<and> (\<forall>r \<in> set rs. period_start freq (snd r) = Inr (fst r))"
  by (induction rows arbitrary: rs) (auto split: sum.splits)

lemma with_period_start_dated:
  "\<forall>ob \<in> set rows. obs_date ob \<noteq> None \<Longrightarrow> \<exists>rs. with_period_start freq rows = Inr rs"
  by (induction rows) (auto simp: period_start_def split: option.splits sum.splits)

lemma with_period_start_undated:
  "\<exists>ob \<in> set rows. obs_date ob = None \<Longrightarrow> with_period_start freq rows = Inl AttributeError"
proof (induction rows)
  case Nil
  then show ?case by simp
next
  case (Cons ob rest)
  show ?case
  proof (cases "obs_date ob")
    case None
    then show ?thesis by (simp add: period_start_def)
  next
    case (Some d)
    then have "\<exists>x \<in> set rest. obs_date x = None"
      using Cons.prems by auto
    then have "with_period_start freq rest = Inl AttributeError"
      by (rule Cons.IH)
    then show ?thesis
      using Some by (simp add: period_start_def)
  qed
qed

lemma mem_group_keys:
  "k \<in> set (group_keys rs) \<longleftrightarrow> (\<exists>r \<in> set rs. fst r = fst k \<and> obs_datatype (snd r) = snd k)"
  by (cases k) (auto simp: group_keys_def)

lemma key_in_filtered:
  assumes "with_period_start freq rows = Inr rs"
  shows "(p, v) \<in> set (group_keys (filter (\<lambda>r. Q (snd r)) rs)) \<longleftrightarrow>
           (\<exists>ob \<in> set rows. Q ob \<and> period_start freq ob = Inr p \<and> obs_datatype ob = v)"
proof -
  have rows: "rows = map snd rs"
    and per: "\<And>r. r \<in> set rs \<Longrightarrow> period_start freq (snd r) = Inr (fst r)"
    using with_period_start_rows [OF assms] by auto
  show ?thesis
  proof
    assume "(p, v) \<in> set (group_keys (filter (\<lambda>r. Q (snd r)) rs))"
    then obtain r where r: "r \<in> set rs" "Q (snd r)" "fst r = p" "obs_datatype (snd r) = v"
      by (auto simp: mem_group_keys)
    have "snd r \<in> set rows" using r(1) rows by simp
    moreover have "period_start freq (snd r) = Inr p" using per [OF r(1)] r(3) by simp
    ultimately show "\<exists>ob \<in> set rows. Q ob \<and> period_start freq ob = Inr p \<and> obs_datatype ob = v"
      using r(2,4) by blast
  next
    assume "\<exists>ob \<in> set rows. Q ob \<and> period_start freq ob = Inr p \<and> obs_datatype ob = v"
    then obtain ob where ob: "ob \<in> set rows" "Q ob" "period_start freq ob = Inr p"
      "obs_datatype ob = v" by blast
    obtain r where r: "r \<in> set rs" "snd r = ob"
      using ob(1) rows by auto
    have "fst r = p" using per [OF r(1)] r(2) ob(3) by simp
    then have "\<exists>r' \<in> set (filter (\<lambda>r. Q (snd r)) rs).
        fst r' = fst (p, v) \<and> obs_datatype (snd r') = snd (p, v)"
      using r ob(2,4) by (intro bexI [of _ r]) simp_all
    then show "(p, v) \<in> set (group_keys (filter (\<lambda>r. Q (snd r)) rs))"
      by (simp only: mem_group_keys)
  qed
qed

lemma map_of_groupby_sum:
  "map_of (groupby_sum rs) k =
     (if k \<in> set (group_keys rs) then Some (sum_list (group_values rs k)) else None)"
  by (simp add: groupby_sum_def map_of_map_key)

lemma map_of_groupby_mean:
  "map_of (groupby_mean rs) k =
     (if k \<in> set (group_keys rs) then Some (mean (group_values rs k)) else None)"
  by (simp add: groupby_mean_def map_of_map_key)

lemma keys_groupby_sum: "map fst (groupby_sum rs) = group_keys rs"
  by (simp add: groupby_sum_def comp_def)

lemma keys_groupby_mean: "map fst (groupby_mean rs) = group_keys rs"
  by (simp add: groupby_mean_def comp_def)

lemma group_keys_Nil: "group_keys [] = []"
  by (simp add: group_keys_def)

lemma pivot_Nil: "pivot [] = empty_wide"
  by (simp add: pivot_def empty_wide_def)

lemma sort_remdups_Nil:
  fixes xs :: "'a::linorder list"
  shows "sort (remdups xs) = [] \<longleftrightarrow> xs = []"
proof -
  have "set (sort (remdups xs)) = set xs" by simp
  then show ?thesis by (metis set_empty)
qed

lemma wide_empty_pivot: "wide_empty (pivot g) \<longleftrightarrow> g = []"
  by (simp add: wide_empty_def pivot_def sort_remdups_Nil)

lemma wide_sum_of_eq: "wide_sum_of d = pivot (g_sum d)"
  by (simp add: wide_sum_of_def g_sum_def groupby_sum_def group_keys_Nil pivot_Nil)

lemma wide_mean_of_eq: "wide_mean_of wanted d = pivot (g_mean wanted d)"
  by (simp add: wide_mean_of_def g_mean_def groupby_mean_def group_keys_Nil pivot_Nil)

lemma merge_wide_cases:
  "merge_wide (pivot S) (pivot M) =
     (if S = [] then pivot M else if M = [] then pivot S else join_outer (pivot M) (pivot S))"
  by (simp add: merge_wide_def wide_empty_pivot)

lemma merge_wide_cells: "wcells (merge_wide (pivot S) (pivot M)) = M @ S"
  unfolding merge_wide_cases by (simp add: pivot_def join_outer_def)

lemma merge_wide_index:
  "set (windex (merge_wide (pivot S) (pivot M))) = (\<lambda>r. fst (fst r)) ` set (M @ S)"
  unfolding merge_wide_cases by (auto simp: pivot_def join_outer_def)

lemma merge_wide_distinct: "distinct (windex (merge_wide (pivot S) (pivot M)))"
  unfolding merge_wide_cases by (simp add: pivot_def join_outer_def)

lemma merge_wide_columns:
  "set (wcolumns (merge_wide (pivot S) (pivot M))) = (\<lambda>r. snd (fst r)) ` set (M @ S)"
  unfolding merge_wide_cases by (auto simp: pivot_def join_outer_def)

lemma group_values_period:
  assumes W: "with_period_start freq rows = Inr rs"
    and Q: "\<And>ob. obs_datatype ob = v \<Longrightarrow> Q ob"
  shows "group_values (filter (\<lambda>r. Q (snd r)) rs) (p, v) = period_values freq rows p v"
proof -
  have rows: "map snd rs = rows"
    and per: "\<And>r. r \<in> set rs \<Longrightarrow> period_start freq (snd r) = Inr (fst r)"
    using with_period_start_rows [OF W] by auto
  have "filter (\<lambda>r. (fst r, obs_datatype (snd r)) = (p, v)) (filter (\<lambda>r. Q (snd r)) rs) =
        filter ((\<lambda>ob. period_start freq ob = Inr p \<and> obs_datatype ob = v) \<circ> snd) rs"
    unfolding filter_filter by (rule filter_cong) (auto simp: per Q)
  then have "group_values (filter (\<lambda>r. Q (snd r)) rs) (p, v) =
        map obs_value (map snd
          (filter ((\<lambda>ob. period_start freq ob = Inr p \<and> obs_datatype ob = v) \<circ> snd) rs))"
    by (simp add: group_values_def comp_def)
  also have "\<dots> = map obs_value
        (filter (\<lambda>ob. period_start freq ob = Inr p \<and> obs_datatype ob = v) (map snd rs))"
    by (simp only: filter_map)
  finally show ?thesis
    by (simp add: period_values_def rows)
qed

lemma period_values_wanted:
  "period_values freq (filter (\<lambda>ob. obs_datatype ob \<in> set wanted) daily) p v =
     (if v \<in> set wanted then period_values freq daily p v else [])"
proof -
  have "filter (\<lambda>ob. period_start freq ob = Inr p \<and> obs_datatype ob = v)
          (filter (\<lambda>ob. obs_datatype ob \<in> set wanted) daily) =
        (if v \<in> set wanted
         then filter (\<lambda>ob. period_start freq ob = Inr p \<and> obs_datatype ob = v) daily else [])"
    unfolding filter_filter by (auto intro: filter_cong simp: filter_empty_conv)
  then show ?thesis
    by (simp add: period_values_def)
qed

lemma period_values_Nil_iff:
  "period_values freq rows p v = [] \<longleftrightarrow>
     \<not> (\<exists>ob \<in> set rows. period_start freq ob = Inr p \<and> obs_datatype ob = v)"
  by (auto simp: period_values_def filter_empty_conv)

lemma map_of_g_sum:
  assumes W: "with_period_start freq rows = Inr rs"
  shows "map_of (g_sum rs) (p, v) =
     (if v \<in> sum_vars \<and> period_values freq rows p v \<noteq> []
      then Some (sum_list (period_values freq rows p v)) else None)"
proof -
  let ?F = "filter (\<lambda>r. obs_datatype (snd r) \<in> sum_vars) rs"
  have key: "(p, v) \<in> set (group_keys ?F) \<longleftrightarrow>
      (\<exists>ob \<in> set rows. obs_datatype ob \<in> sum_vars \<and> period_start freq ob = Inr p \<and>
         obs_datatype ob = v)"
    by (rule key_in_filtered [OF W, where Q = "\<lambda>ob. obs_datatype ob \<in> sum_vars"])
  show ?thesis
  proof (cases "v \<in> sum_vars")
    case True
    have gv: "group_values ?F (p, v) = period_values freq rows p v"
      by (rule group_values_period [OF W, where Q = "\<lambda>ob. obs_datatype ob \<in> sum_vars"])
        (use True in simp)
    have "(p, v) \<in> set (group_keys ?F) \<longleftrightarrow> period_values freq rows p v \<noteq> []"
      unfolding key period_values_Nil_iff using True by auto
    then show ?thesis
      using True gv by (simp add: g_sum_def map_of_groupby_sum)
  next
    case False
    have "(p, v) \<notin> set (group_keys ?F)"
      unfolding key using False by auto
    then show ?thesis
      using False by (simp add: g_sum_def map_of_groupby_sum)
  qed
qed

lemma map_of_g_mean:
  assumes W: "with_period_start freq rows = Inr rs"
  shows "map_of (g_mean wanted rs) (p, v) =
     (if v \<in> set wanted - sum_vars \<and> period_values freq rows p v \<noteq> []
      then Some (mean (period_values freq rows p v)) else None)"
proof -
  let ?F = "filter (\<lambda>r. obs_datatype (snd r) \<in> set wanted - sum_vars) rs"
  have key: "(p, v) \<in> set (group_keys ?F) \<longleftrightarrow>
      (\<exists>ob \<in> set rows. obs_datatype ob \<in> set wanted - sum_vars \<and>
         period_start freq ob = Inr p \<and> obs_datatype ob = v)"
    by (rule key_in_filtered
        [OF W, where Q = "\<lambda>ob. obs_datatype ob \<in> set wanted - sum_vars"])
  show ?thesis
  proof (cases "v \<in> set wanted - sum_vars")
    case True
    have gv: "group_values ?F (p, v) = period_values freq rows p v"
      by (rule group_values_period
          [OF W, where Q = "\<lambda>ob. obs_datatype ob \<in> set wanted - sum_vars"])
        (use True in simp)
    have "(p, v) \<in> set (group_keys ?F) \<longleftrightarrow> period_values freq rows p v \<noteq> []"
      unfolding key period_values_Nil_iff using True by auto
    then show ?thesis
      using True gv by (simp only: g_mean_def map_of_groupby_mean if_True simp_thms)
  next
    case False
    have "(p, v) \<notin> set (group_keys ?F)"
      unfolding key using False by auto
    then show ?thesis
      using False by (simp only: g_mean_def map_of_groupby_mean if_False simp_thms)
  qed
qed

lemma map_of_cells:
  assumes W: "with_period_start freq rows = Inr rs"
  shows "map_of (g_mean wanted rs @ g_sum rs) (p, v) =
     (if period_values freq rows p v = [] \<or> v \<notin> set wanted \<union> sum_vars then None
      else if v \<in> sum_vars then Some (sum_list (period_values freq rows p v))
      else Some (mean (period_values freq rows p v)))"
  by (simp add: map_add_def map_of_g_sum [OF W] map_of_g_mean [OF W])

lemma keys_g_sum:
  assumes W: "with_period_start freq rows = Inr rs"
  shows "(\<lambda>r. fst r) ` set (g_sum rs) =
     {(p, v). v \<in> sum_vars \<and>
        (\<exists>ob \<in> set rows. period_start freq ob = Inr p \<and> obs_datatype ob = v)}"
proof -
  let ?F = "filter (\<lambda>r. obs_datatype (snd r) \<in> sum_vars) rs"
  have key: "\<And>p v. (p, v) \<in> set (group_keys ?F) \<longleftrightarrow>
      (\<exists>ob \<in> set rows. obs_datatype ob \<in> sum_vars \<and> period_start freq ob = Inr p \<and>
         obs_datatype ob = v)"
    by (rule key_in_filtered [OF W, where Q = "\<lambda>ob. obs_datatype ob \<in> sum_vars"])
  have "(\<lambda>r. fst r) ` set (g_sum rs) = set (group_keys ?F)"
    unfolding g_sum_def keys_groupby_sum [symmetric] by simp
  also have "\<dots> = {(p, v). v \<in> sum_vars \<and>
        (\<exists>ob \<in> set rows. period_start freq ob = Inr p \<and> obs_datatype ob = v)}"
    using key by auto
  finally show ?thesis .
qed

lemma keys_g_mean:
  assumes W: "with_period_start freq rows = Inr rs"
  shows "(\<lambda>r. fst r) ` set (g_mean wanted rs) =
     {(p, v). v \<in> set wanted - sum_vars \<and>
        (\<exists>ob \<in> set rows. period_start freq ob = Inr p \<and> obs_datatype ob = v)}"
proof -
  let ?F = "filter (\<lambda>r. obs_datatype (snd r) \<in> set wanted - sum_vars) rs"
  have key: "\<And>p v. (p, v) \<in> set (group_keys ?F) \<longleftrightarrow>
      (\<exists>ob \<in> set rows. obs_datatype ob \<in> set wanted - sum_vars \<and>
         period_start freq ob = Inr p \<and> obs_datatype ob = v)"
    by (rule key_in_filtered
        [OF W, where Q = "\<lambda>ob. obs_datatype ob \<in> set wanted - sum_vars"])
  have "(\<lambda>r. fst r) ` set (g_mean wanted rs) = set (group_keys ?F)"
    unfolding g_mean_def keys_groupby_mean [symmetric] by (simp only: image_set)
  also have "\<dots> = {(p, v). v \<in> set wanted - sum_vars \<and>
        (\<exists>ob \<in> set rows. period_start freq ob = Inr p \<and> obs_datatype ob = v)}"
    using key by auto
  finally show ?thesis .
qed

lemma keys_all:
  assumes W: "with_period_start freq (filter (\<lambda>ob. obs_datatype ob \<in> set wanted) daily) = Inr rs"
  shows "(\<lambda>r. fst r) ` set (g_mean wanted rs @ g_sum rs) =
     {(p, v). \<exists>ob \<in> set daily. obs_datatype ob \<in> set wanted \<and>
                period_start freq ob = Inr p \<and> obs_datatype ob = v}"
  unfolding set_append image_Un keys_g_sum [OF W] keys_g_mean [OF W] by auto

lemma periods_of_keys:
  assumes W: "with_period_start freq (filter (\<lambda>ob. obs_datatype ob \<in> set wanted) daily) = Inr rs"
  shows "(\<lambda>r. fst (fst r)) ` set (g_mean wanted rs @ g_sum rs) =
     {p. \<exists>ob \<in> set daily. obs_datatype ob \<in> set wanted \<and> period_start freq ob = Inr p}"
proof -
  have "(\<lambda>r. fst (fst r)) ` set (g_mean wanted rs @ g_sum rs) =
        fst ` ((\<lambda>r. fst r) ` set (g_mean wanted rs @ g_sum rs))"
    by (simp only: image_image)
  also have "\<dots> =
      {p. \<exists>ob \<in> set daily. obs_datatype ob \<in> set wanted \<and> period_start freq ob = Inr p}"
    unfolding keys_all [OF W] by force
  finally show ?thesis .
qed

lemma columns_of_keys:
  assumes W: "with_period_start freq (filter (\<lambda>ob. obs_datatype ob \<in> set wanted) daily) = Inr rs"
  shows "(\<lambda>r. snd (fst r)) ` set (g_mean wanted rs @ g_sum rs) =
     {v. v \<in> set wanted \<and> (\<exists>ob \<in> set daily. obs_datatype ob = v)}"
proof -
  have dated: "\<exists>p. period_start freq ob = Inr p"
    if "ob \<in> set daily" "obs_datatype ob \<in> set wanted" for ob
  proof -
    have "ob \<in> set (map snd rs)"
      using that with_period_start_rows [OF W] by simp
    then obtain r where "r \<in> set rs" "snd r = ob" by auto
    then show ?thesis
      using with_period_start_rows [OF W] by auto
  qed
  have "(\<lambda>r. snd (fst r)) ` set (g_mean wanted rs @ g_sum rs) =
        snd ` ((\<lambda>r. fst r) ` set (g_mean wanted rs @ g_sum rs))"
    by (simp only: image_image)
  also have "\<dots> = {v. v \<in> set wanted \<and> (\<exists>ob \<in> set daily. obs_datatype ob = v)}"
    unfolding keys_all [OF W] using dated by force
  finally show ?thesis .
qed

lemma g_Nil: "g_sum [] = []" "g_mean wanted [] = []"
  by (simp_all add: g_sum_def g_mean_def groupby_sum_def groupby_mean_def group_keys_Nil)

lemma daily_to_period_station_eq:
  "daily_to_period_station daily wanted freq =
     (case with_period_start freq (filter (\<lambda>ob. obs_datatype ob \<in> set wanted) daily) of
        Inl e \<Rightarrow> Inl e
      | Inr d \<Rightarrow>
          if g_mean wanted d @ g_sum d = [] then Inr empty_table
          else Inr (reindex_table freq wanted
                      (merge_wide (pivot (g_sum d)) (pivot (g_mean wanted d)))))"
proof (cases "filter (\<lambda>ob. obs_datatype ob \<in> set wanted) daily = []")
  case True
  then show ?thesis
    by (simp add: daily_to_period_station_def g_Nil)
next
  case False
  then have "daily \<noteq> []" by auto
  then show ?thesis
    using False
    by (simp add: daily_to_period_station_def Let_def wide_sum_of_eq wide_mean_of_eq
        wide_empty_pivot split: sum.splits)
qed

lemma daily_to_period_station_Inr:
  assumes "daily_to_period_station daily wanted freq = Inr t"
  shows "\<exists>d. with_period_start freq (filter (\<lambda>ob. obs_datatype ob \<in> set wanted) daily) = Inr d \<and>
             t = (if g_mean wanted d @ g_sum d = [] then empty_table
                  else reindex_table freq wanted
                         (merge_wide (pivot (g_sum d)) (pivot (g_mean wanted d))))"
  using assms unfolding daily_to_period_station_eq by (auto split: sum.splits if_splits)

lemma daily_to_period_station_dated:
  assumes "\<forall>ob \<in> set daily. obs_datatype ob \<in> set wanted \<longrightarrow> obs_date ob \<noteq> None"
  shows "\<exists>t. daily_to_period_station daily wanted freq = Inr t"
proof -
  have "\<forall>ob \<in> set (filter (\<lambda>ob. obs_datatype ob \<in> set wanted) daily). obs_date ob \<noteq> None"
    using assms by simp
  then obtain d where
    "with_period_start freq (filter (\<lambda>ob. obs_datatype ob \<in> set wanted) daily) = Inr d"
    using with_period_start_dated by blast
  then show ?thesis
    unfolding daily_to_period_station_eq by simp
qed

lemma daily_to_period_station_undated:
  assumes "\<exists>ob \<in> set daily. obs_datatype ob \<in> set wanted \<and> obs_date ob = None"
  shows "daily_to_period_station daily wanted freq = Inl AttributeError"
proof -
  have "\<exists>ob \<in> set (filter (\<lambda>ob. obs_datatype ob \<in> set wanted) daily). obs_date ob = None"
    using assms by auto
  then have
    "with_period_start freq (filter (\<lambda>ob. obs_datatype ob \<in> set wanted) daily) =
       Inl AttributeError"
    by (rule with_period_start_undated)
  then show ?thesis
    unfolding daily_to_period_station_eq by simp
qed

lemma table_cell_reindex:
  "table_cell (reindex_table freq wanted wd) p v =
     (if p \<in> set (windex wd) \<and> v \<in> set wanted \<and> v \<in> set (wcolumns wd)
      then Some (map_of (wcells wd) (p, v)) else None)"
  by (simp add: table_cell_def reindex_table_def Let_def map_of_map_key map_of_zip_map)

lemma rows_reindex: "map fst (trows (reindex_table freq wanted wd)) = windex wd"
  by (simp add: reindex_table_def Let_def comp_def)

lemmas agg_defs = daily_to_period_station_def wide_sum_of_def wide_mean_of_def g_sum_def
  g_mean_def groupby_sum_def groupby_mean_def group_keys_def group_values_def mean_def
  pivot_def merge_wide_def join_outer_def wide_empty_def empty_wide_def reindex_table_def
  table_cell_def period_start_def week_start_W_MON_def month_start_def
  label_col_def sum_vars_def no_label_clash_def empty_table_def table_empty_def

lemmas bucket_defs = bucket_values_def spec_bucket_def monday_on_or_before_def
  first_of_month_def weekday_def

text \<open>
  What the code computes for a key: the cell of the aggregate for a period start \<open>p\<close> of
  the code and a requested variable \<open>v\<close> that has a value under that key is the sum of the
  values grouped under the key when \<open>v\<close> is PRCP or SNOW, and their mean otherwise.
\<close>

lemma cell_is_group_reduction:
  assumes res: "daily_to_period_station daily_df wanted_vars freq = Inr t"
    and v: "v \<in> set wanted_vars"
    and ne: "period_values freq daily_df p v \<noteq> []"
  shows "table_cell t p v =
           Some (Some (if v \<in> sum_vars then sum_list (period_values freq daily_df p v)
                       else mean (period_values freq daily_df p v)))"
proof -
  let ?f = "filter (\<lambda>ob. obs_datatype ob \<in> set wanted_vars) daily_df"
  obtain d where W: "with_period_start freq ?f = Inr d"
    and t: "t = (if g_mean wanted_vars d @ g_sum d = [] then empty_table
                 else reindex_table freq wanted_vars
                        (merge_wide (pivot (g_sum d)) (pivot (g_mean wanted_vars d))))"
    using daily_to_period_station_Inr [OF res] by blast
  let ?cells = "g_mean wanted_vars d @ g_sum d"
  let ?wd = "merge_wide (pivot (g_sum d)) (pivot (g_mean wanted_vars d))"
  have pv: "period_values freq ?f p v = period_values freq daily_df p v"
    using v by (simp add: period_values_wanted)
  obtain ob where ob: "ob \<in> set daily_df" "period_start freq ob = Inr p" "obs_datatype ob = v"
    using ne by (auto simp: period_values_Nil_iff)
  have key: "(p, v) \<in> (\<lambda>r. fst r) ` set ?cells"
    unfolding keys_all [OF W] using ob v by auto
  then have nonempty: "?cells \<noteq> []" by auto
  have t': "t = reindex_table freq wanted_vars ?wd"
    using t nonempty by (simp only: if_False)
  have p: "p \<in> set (windex ?wd)"
    unfolding merge_wide_index using key by force
  have c: "v \<in> set (wcolumns ?wd)"
    unfolding merge_wide_columns using key by force
  have "table_cell (reindex_table freq wanted_vars ?wd) p v = Some (map_of ?cells (p, v))"
    using p c v by (simp add: table_cell_reindex merge_wide_cells)
  also have "map_of ?cells (p, v) =
      Some (if v \<in> sum_vars then sum_list (period_values freq daily_df p v)
            else mean (period_values freq daily_df p v))"
    unfolding map_of_cells [OF W] pv using v ne by simp
  finally show ?thesis
    by (simp add: t')
qed

text \<open>
  For the monthly frequency the code's key is the spec's bucket, so the cells are the sums
  and means over the calendar month.
\<close>

lemma monthly_bucket_values:
  assumes "freq \<noteq> ''weekly''"
  shows "bucket_values freq daily_df p v = period_values freq daily_df p v"
proof -
  have "filter (\<lambda>ob. obs_datatype ob = v \<and>
                  (case obs_date ob of None \<Rightarrow> False | Some d \<Rightarrow> spec_bucket freq d = p)) daily_df =
        filter (\<lambda>ob. period_start freq ob = Inr p \<and> obs_datatype ob = v) daily_df"
    using assms
    by (intro filter_cong)
      (auto simp: period_start_def spec_bucket_def first_of_month_def month_start_def
        split: option.splits)
  then show ?thesis
    by (simp add: bucket_values_def period_values_def)
qed

lemma monthly_cell_is_bucket_reduction:
  assumes "freq \<noteq> ''weekly''"
    and "daily_to_period_station daily_df wanted_vars freq = Inr t"
    and "v \<in> set wanted_vars"
    and "bucket_values freq daily_df p v \<noteq> []"
  shows "table_cell t p v =
           Some (Some (if v \<in> sum_vars then sum_list (bucket_values freq daily_df p v)
                       else mean (bucket_values freq daily_df p v)))"
  using cell_is_group_reduction [OF assms(2,3), of p] assms(4)
  unfolding monthly_bucket_values [OF assms(1)] by simp

text \<open>
  Claim C6. The claim says that for every set of daily observations and every period
  bucket, the aggregate of PRCP and SNOW is the sum, and that of every other requested
  variable the mean, of the daily values that fall in the bucket. For weekly aggregation
  the code does not: its groups are the Tuesday-to-Monday windows of \<^verbatim>\<open>W-MON\<close> (the defect
  of claim C1), not the Monday-anchored weeks. With precipitation 1/2 on Wednesday
  2024-01-03 and 1/4 on Monday 2024-01-08, the week of Monday 2024-01-01 holds the value
  1/2 and the week of Monday 2024-01-08 the value 1/4; the code returns the single row of
  Tuesday 2024-01-02 with the value 3/4, which is the sum of neither week, and has no row
  for either Monday.
\<close>

theorem weekly_sum_mixes_two_weeks:
  "bucket_values ''weekly''
     [\<lparr>obs_date = Some (Date 2024 1 3), obs_datatype = ''PRCP'', obs_value = 1 / 2\<rparr>,
      \<lparr>obs_date = Some (Date 2024 1 8), obs_datatype = ''PRCP'', obs_value = 1 / 4\<rparr>]
     (toordinal (Date 2024 1 1)) ''PRCP'' = [1 / 2] \<and>
   bucket_values ''weekly''
     [\<lparr>obs_date = Some (Date 2024 1 3), obs_datatype = ''PRCP'', obs_value = 1 / 2\<rparr>,
      \<lparr>obs_date = Some (Date 2024 1 8), obs_datatype = ''PRCP'', obs_value = 1 / 4\<rparr>]
     (toordinal (Date 2024 1 8)) ''PRCP'' = [1 / 4] \<and>
   daily_to_period_station
     [\<lparr>obs_date = Some (Date 2024 1 3), obs_datatype = ''PRCP'', obs_value = 1 / 2\<rparr>,
      \<lparr>obs_date = Some (Date 2024 1 8), obs_datatype = ''PRCP'', obs_value = 1 / 4\<rparr>]
     [''PRCP''] ''weekly'' =
     Inr \<lparr>tlabel = Some ''week_start'', tcolumns = [''PRCP''],
          trows = [(toordinal (Date 2024 1 2), [Some (3 / 4)])]\<rparr> \<and>
   toordinal (Date 2024 1 2) \<noteq> toordinal (Date 2024 1 1) \<and>
   toordinal (Date 2024 1 2) \<noteq> toordinal (Date 2024 1 8)"
  by (simp add: agg_defs bucket_defs prod_order_defs calendar_defs)

lemma filter_key_one:
  "distinct (map f xs) \<Longrightarrow> p \<in> f ` set xs \<Longrightarrow> length (filter (\<lambda>r. f r = p) xs) = 1"
proof (induction xs)
  case Nil
  then show ?case by simp
next
  case (Cons x xs)
  show ?case
  proof (cases "f x = p")
    case True
    then have "filter (\<lambda>r. f r = p) xs = []"
      using Cons.prems(1) by (force simp: filter_empty_conv image_iff)
    then show ?thesis using True by simp
  next
    case False
    then show ?thesis using Cons by auto
  qed
qed

text \<open>
  Claim C7. The aggregator returns a table whenever every observation of a requested
  variable has a date (it raises when one has none). For every input, the rows of the
  table it returns have distinct period keys, and the keys are exactly the period starts
  of the observations of requested variables: each such period is the key of exactly one
  row, whether its observations are of sum-reduced variables only, of mean-reduced
  variables only, or of both. The columns are the requested variables that have an
  observation, and a cell whose variable has no observation in the row's period is empty.
\<close>

theorem one_row_per_period:
  assumes "no_label_clash wanted_vars"
  shows "((\<forall>ob \<in> set daily_df. obs_datatype ob \<in> set wanted_vars \<longrightarrow> obs_date ob \<noteq> None) \<longrightarrow>
            (\<exists>t. daily_to_period_station daily_df wanted_vars freq = Inr t)) \<and>
     ((\<exists>ob \<in> set daily_df. obs_datatype ob \<in> set wanted_vars \<and> obs_date ob = None) \<longrightarrow>
        daily_to_period_station daily_df wanted_vars freq = Inl AttributeError) \<and>
     (daily_to_period_station daily_df wanted_vars freq = Inr t \<longrightarrow>
        distinct (map fst (trows t)) \<and>
        set (map fst (trows t)) =
          {p. \<exists>ob \<in> set daily_df. obs_datatype ob \<in> set wanted_vars \<and>
                period_start freq ob = Inr p} \<and>
        set (tcolumns t) =
          {v. v \<in> set wanted_vars \<and> (\<exists>ob \<in> set daily_df. obs_datatype ob = v)} \<and>
        (\<forall>p \<in> set (map fst (trows t)).
           length (filter (\<lambda>r. fst r = p) (trows t)) = 1 \<and>
           (\<forall>v \<in> set (tcolumns t).
              \<not> (\<exists>ob \<in> set daily_df. obs_datatype ob = v \<and> period_start freq ob = Inr p) \<longrightarrow>
              table_cell t p v = Some None)))"
proof -
  have table: "distinct (map fst (trows t)) \<and>
        set (map fst (trows t)) =
          {p. \<exists>ob \<in> set daily_df. obs_datatype ob \<in> set wanted_vars \<and>
                period_start freq ob = Inr p} \<and>
        set (tcolumns t) =
          {v. v \<in> set wanted_vars \<and> (\<exists>ob \<in> set daily_df. obs_datatype ob = v)} \<and>
        (\<forall>p \<in> set (map fst (trows t)).
           length (filter (\<lambda>r. fst r = p) (trows t)) = 1 \<and>
           (\<forall>v \<in> set (tcolumns t).
              \<not> (\<exists>ob \<in> set daily_df. obs_datatype ob = v \<and> period_start freq ob = Inr p) \<longrightarrow>
              table_cell t p v = Some None))"
    if res: "daily_to_period_station daily_df wanted_vars freq = Inr t"
  proof -
    let ?f = "filter (\<lambda>ob. obs_datatype ob \<in> set wanted_vars) daily_df"
    obtain d where W: "with_period_start freq ?f = Inr d"
      and t: "t = (if g_mean wanted_vars d @ g_sum d = [] then empty_table
                   else reindex_table freq wanted_vars
                          (merge_wide (pivot (g_sum d)) (pivot (g_mean wanted_vars d))))"
      using daily_to_period_station_Inr [OF res] by blast
    let ?cells = "g_mean wanted_vars d @ g_sum d"
    let ?wd = "merge_wide (pivot (g_sum d)) (pivot (g_mean wanted_vars d))"
    let ?P = "{p. \<exists>ob \<in> set daily_df. obs_datatype ob \<in> set wanted_vars \<and>
               period_start freq ob = Inr p}"
    let ?V = "{v. v \<in> set wanted_vars \<and> (\<exists>ob \<in> set daily_df. obs_datatype ob = v)}"
    show ?thesis
    proof (cases "?cells = []")
      case True
      have t': "t = empty_table"
        using t True by simp
      have "(\<lambda>r. fst (fst r)) ` set ?cells = {}" "(\<lambda>r. snd (fst r)) ` set ?cells = {}"
        using True by simp_all
      then have "?P = {}" "?V = {}"
        unfolding periods_of_keys [OF W] columns_of_keys [OF W] by simp_all
      then show ?thesis
        unfolding t' by (simp add: empty_table_def)
    next
      case False
      have t': "t = reindex_table freq wanted_vars ?wd"
        using t False by (simp only: if_False)
      have keys: "map fst (trows t) = windex ?wd"
        unfolding t' by (rule rows_reindex)
      have dist: "distinct (map fst (trows t))"
        unfolding keys by (rule merge_wide_distinct)
      have s: "set (map fst (trows t)) = ?P"
        unfolding keys merge_wide_index periods_of_keys [OF W] ..
      have c: "set (tcolumns t) = ?V"
      proof -
        have "set (tcolumns t) = set wanted_vars \<inter> set (wcolumns ?wd)"
          unfolding t' by (auto simp: reindex_table_def Let_def)
        also have "\<dots> = ?V"
          unfolding merge_wide_columns columns_of_keys [OF W] by auto
        finally show ?thesis .
      qed
      have one: "length (filter (\<lambda>r. fst r = p) (trows t)) = 1"
        if "p \<in> set (map fst (trows t))" for p
        using dist that by (intro filter_key_one) simp_all
      have empty: "table_cell t p v = Some None"
        if p: "p \<in> set (map fst (trows t))" and v: "v \<in> set (tcolumns t)"
          and b: "\<not> (\<exists>ob \<in> set daily_df. obs_datatype ob = v \<and> period_start freq ob = Inr p)"
        for p v
      proof -
        have pw: "p \<in> set (windex ?wd)"
          using p unfolding keys .
        have vw: "v \<in> set wanted_vars \<and> v \<in> set (wcolumns ?wd)"
          using v unfolding t' by (auto simp: reindex_table_def Let_def)
        have "period_values freq daily_df p v = []"
          using b by (auto simp: period_values_Nil_iff)
        then have bd: "period_values freq ?f p v = []"
          by (simp add: period_values_wanted)
        have "map_of ?cells (p, v) = None"
          unfolding map_of_cells [OF W] using bd by simp
        then show ?thesis
          unfolding t' using pw vw by (simp add: table_cell_reindex merge_wide_cells)
      qed
      show ?thesis
        using dist s c one empty by blast
    qed
  qed
  show ?thesis
    using table daily_to_period_station_dated [of daily_df wanted_vars freq]
      daily_to_period_station_undated [of daily_df wanted_vars freq]
    by blast
qed

text \<open>Four observations: precipitation in one week only, temperature in the next only. And
  an input with an undated observation of a requested variable, on which the code raises.\<close>

theorem one_row_per_period_witness:
  "no_label_clash [''TMAX'', ''PRCP''] \<and>
   daily_to_period_station
     [\<lparr>obs_date = Some (Date 2024 1 3), obs_datatype = ''PRCP'', obs_value = 1 / 2\<rparr>,
      \<lparr>obs_date = Some (Date 2024 1 8), obs_datatype = ''PRCP'', obs_value = 1 / 4\<rparr>,
      \<lparr>obs_date = Some (Date 2024 1 9), obs_datatype = ''TMAX'', obs_value = 30\<rparr>,
      \<lparr>obs_date = Some (Date 2024 1 10), obs_datatype = ''TMAX'', obs_value = 41\<rparr>]
     [''TMAX'', ''PRCP''] ''weekly'' =
     Inr \<lparr>tlabel = Some ''week_start'', tcolumns = [''TMAX'', ''PRCP''],
          trows = [(toordinal (Date 2024 1 2), [None, Some (3 / 4)]),
                   (toordinal (Date 2024 1 9), [Some (71 / 2), None])]\<rparr> \<and>
   table_cell
     \<lparr>tlabel = Some ''week_start'', tcolumns = [''TMAX'', ''PRCP''],
      trows = [(toordinal (Date 2024 1 2), [None, Some (3 / 4)]),
               (toordinal (Date 2024 1 9), [Some (71 / 2), None])]\<rparr>
     (toordinal (Date 2024 1 2)) ''TMAX'' = Some None \<and>
   daily_to_period_station
     [\<lparr>obs_date = Some (Date 2024 1 3), obs_datatype = ''PRCP'', obs_value = 1 / 2\<rparr>,
      \<lparr>obs_date = None, obs_datatype = ''PRCP'', obs_value = 1 / 4\<rparr>]
     [''TMAX'', ''PRCP''] ''weekly'' = Inl AttributeError"
  using one_row_per_period [of "[''TMAX'', ''PRCP'']"
     "[\<lparr>obs_date = Some (Date 2024 1 3), obs_datatype = ''PRCP'', obs_value = 1 / 2\<rparr>,
      \<lparr>obs_date = Some (Date 2024 1 8), obs_datatype = ''PRCP'', obs_value = 1 / 4\<rparr>,
      \<lparr>obs_date = Some (Date 2024 1 9), obs_datatype = ''TMAX'', obs_value = 30\<rparr>,
      \<lparr>obs_date = Some (Date 2024 1 10), obs_datatype = ''TMAX'', obs_value = 41\<rparr>]"
     "''weekly''"
     "\<lparr>tlabel = Some ''week_start'', tcolumns = [''TMAX'', ''PRCP''],
      trows = [(toordinal (Date 2024 1 2), [None, Some (3 / 4)]),
               (toordinal (Date 2024 1 9), [Some (71 / 2), None])]\<rparr>"]
    one_row_per_period [of "[''TMAX'', ''PRCP'']"
     "[\<lparr>obs_date = Some (Date 2024 1 3), obs_datatype = ''PRCP'', obs_value = 1 / 2\<rparr>,
      \<lparr>obs_date = None, obs_datatype = ''PRCP'', obs_value = 1 / 4\<rparr>]"
     "''weekly''"]
  by (simp add: agg_defs prod_order_defs calendar_defs)

text \<open>
  Claim C9. When the input is empty, or none of its observations has a requested variable
  code, the aggregator returns the empty table; it does not raise.
\<close>

theorem no_matching_rows_empty_table:
  assumes "daily_df = [] \<or> (\<forall>ob \<in> set daily_df. obs_datatype ob \<notin> set wanted_vars)"
  shows "daily_to_period_station daily_df wanted_vars freq = Inr empty_table \<and>
         table_empty empty_table"
proof -
  have "daily_df = [] \<or> filter (\<lambda>ob. obs_datatype ob \<in> set wanted_vars) daily_df = []"
    using assms by (auto simp: filter_empty_conv)
  then have "daily_to_period_station daily_df wanted_vars freq = Inr empty_table"
    by (auto simp: daily_to_period_station_def)
  then show ?thesis
    by (simp add: table_empty_def empty_table_def)
qed

text \<open>An input with one observation of a variable that is not requested (and no date), and
  the empty input.\<close>

theorem no_matching_rows_empty_table_witness:
  "obs_datatype \<lparr>obs_date = None, obs_datatype = ''SNWD'', obs_value = 2\<rparr>
     \<notin> set [''TMAX'', ''PRCP''] \<and>
   daily_to_period_station
     [\<lparr>obs_date = None, obs_datatype = ''SNWD'', obs_value = 2\<rparr>]
     [''TMAX'', ''PRCP''] ''weekly'' = Inr empty_table \<and>
   daily_to_period_station [] [''TMAX'', ''PRCP''] ''monthly'' = Inr empty_table"
  using no_matching_rows_empty_table [of
     "[\<lparr>obs_date = None, obs_datatype = ''SNWD'', obs_value = 2\<rparr>]"
     "[''TMAX'', ''PRCP'']" "''weekly''"]
    no_matching_rows_empty_table [of "[]" "[''TMAX'', ''PRCP'']" "''monthly''"]
  by simp

subsection \<open>The request helper\<close>

lemma upt3: "[1 ..< RETRY + 1] = [1, 2, 3]"
  by (simp add: RETRY_def upt_rec)

text \<open>
  Claim C3. The claim says that when the retries are exhausted, rate-limit responses
  included, the helper re-raises the last failure it met. The code records no failure
  for a 429 response. With the responses 503, 429, 429 it raises the \<^verbatim>\<open>HTTPError\<close> of the
  first attempt; with a connection error followed by 429, 429 it raises the connection
  error of the first attempt; with 429 on every attempt it raises the \<^verbatim>\<open>RuntimeError\<close>
  "Unknown error", which is no failure it met.
\<close>

theorem rate_limit_exhaustion:
  "req_json (\<lambda>n. if n = 1 then Response 503 EmptyBody else Response 429 (EmptyBody :: unit body))
      RETRY = Inl (HTTPError 503) \<and>
   req_json (\<lambda>n. if n = 1 then Raised ConnectionError else Response 429 (EmptyBody :: unit body))
      RETRY = Inl ConnectionError \<and>
   req_json (\<lambda>n. Response 429 (EmptyBody :: unit body)) RETRY = Inl RuntimeError"
  unfolding req_json_def upt3 by (simp add: RETRY_def)

subsection \<open>The per-region pipeline\<close>

lemma written_to_csv: "written (to_csv p c fs) = written fs @ [p]"
  by (simp add: to_csv_def)

lemma files_to_csv: "files (to_csv p c fs) p = Some c"
  by (simp add: to_csv_def)

lemma fetch_years_written:
  "fetch_years a fetch fips sid sls fs pyp parts = (fs', pyp', parts') \<Longrightarrow>
     \<exists>new. written fs' = written fs @ new \<and> (\<forall>p \<in> set new. \<not> is_period_csv p)"
proof (induction sls arbitrary: fs pyp parts)
  case Nil
  then show ?case by simp
next
  case (Cons sl rest)
  let ?pp = "PartCsv fips sid (year (fst sl))"
  consider
    (same) pyp2 parts2 where
      "fetch_years a fetch fips sid rest fs pyp2 parts2 = (fs', pyp', parts')"
  | (wrote) df pyp2 parts2 where
      "fetch_years a fetch fips sid rest (to_csv ?pp (DailyRows df) fs) pyp2 parts2 =
         (fs', pyp', parts')"
    using Cons.prems by (auto simp: Let_def split: if_splits sum.splits)
  then show ?case
  proof cases
    case same
    then show ?thesis by (rule Cons.IH)
  next
    case wrote
    then obtain new where
      "written fs' = written (to_csv ?pp (DailyRows df) fs) @ new"
      "\<forall>p \<in> set new. \<not> is_period_csv p"
      using Cons.IH by blast
    then show ?thesis
      by (intro exI [of _ "?pp # new"]) (simp add: written_to_csv)
  qed
qed

lemmas region_defs = process_region_def merge_daily_def to_csv_def already_done_def
  out_name_def

text \<open>
  Claim C8 as stated fails: in a region whose station listing and selection succeed and
  whose every fetch times out, the pipeline ends with no daily data, and the station table
  and the selected-station file of the region have been written.
\<close>

theorem region_files_before_success_counterexample:
  "snd (process_region
          \<lparr>arg_freq = ''weekly'', arg_prefer_usw = False,
            arg_save_raw = False, arg_resume = False\<rparr>
          [''TMAX''] ''01''
          (Inr [\<lparr>station_id = ''GHCND:USC00010001'', mindate = Some (Date 2024 1 1),
             maxdate = Some (Date 2024 12 31), datacoverage = Some 1\<rparr>])
          (\<lambda>sl. Inl Timeout) \<lparr>files = \<lambda>p. None, written = []\<rparr>) = NoDaily \<and>
   written (fst (process_region
          \<lparr>arg_freq = ''weekly'', arg_prefer_usw = False,
            arg_save_raw = False, arg_resume = False\<rparr>
          [''TMAX''] ''01''
          (Inr [\<lparr>station_id = ''GHCND:USC00010001'', mindate = Some (Date 2024 1 1),
             maxdate = Some (Date 2024 12 31), datacoverage = Some 1\<rparr>])
          (\<lambda>sl. Inl Timeout) \<lparr>files = \<lambda>p. None, written = []\<rparr>)) =
     [StationsMetaCsv ''01'', SelectedStationCsv ''01'']"
  by (simp add: region_defs pick_defs prod_order_defs year_slices_defs calendar_defs)

text \<open>
  Claim C8, as amended. The period-aggregate file of a region (weekly or monthly) is
  written only at the end of a run of the region's pipeline in which the listing returned
  at least one station, a representative was selected, the merged daily data (fetched, or
  read back from the per-year files) is not empty and its aggregate is not empty; it is
  then the last file written and holds that aggregate. A run that ends otherwise writes
  no period-aggregate file. The station table, the selected-station file and the per-year
  files are written earlier, each when its own step is done.
\<close>

theorem period_file_only_after_success:
  assumes "no_label_clash wanted_vars"
    and run: "process_region a wanted_vars fips listing fetch fs = (fs', r)"
  shows "\<exists>new. written fs' = written fs @ new \<and>
     (r \<noteq> Done \<longrightarrow> (\<forall>p \<in> set new. \<not> is_period_csv p)) \<and>
     (r = Done \<longrightarrow>
        (\<exists>stations sel fs3 per_year_paths all_daily_parts daily_df agg mid.
           listing = Inr stations \<and> stations \<noteq> [] \<and>
           pick_representative_station stations (arg_prefer_usw a) = [sel] \<and>
           fetch_years a fetch fips (station_id sel) (year_slices (mindate sel) (maxdate sel))
             (to_csv (SelectedStationCsv fips) (StationRows [sel])
               (to_csv (StationsMetaCsv fips) (StationRows stations) fs)) [] [] =
             (fs3, per_year_paths, all_daily_parts) \<and>
           merge_daily a fs3 per_year_paths all_daily_parts = Inr daily_df \<and>
           daily_df \<noteq> [] \<and>
           daily_to_period_station daily_df wanted_vars (arg_freq a) = Inr agg \<and>
           \<not> table_empty agg \<and>
           files fs' (PeriodCsv fips (out_name (arg_freq a))) = Some (PeriodTable agg) \<and>
           new = mid @ [PeriodCsv fips (out_name (arg_freq a))] \<and>
           (\<forall>p \<in> set mid. \<not> is_period_csv p)))"
proof (cases listing)
  case (Inl e)
  then have "fs' = fs" "r = ListFailed"
    using run by (simp_all add: process_region_def)
  then show ?thesis by simp
next
  case (Inr stations)
  show ?thesis
  proof (cases "stations = []")
    case True
    then have "fs' = fs" "r = NoStations"
      using run Inr by (simp_all add: process_region_def)
    then show ?thesis by simp
  next
    case ne: False
    let ?fs1 = "to_csv (StationsMetaCsv fips) (StationRows stations) fs"
    obtain sel where sel: "pick_representative_station stations (arg_prefer_usw a) = [sel]"
      using pick_singleton [OF ne] by blast
    let ?fs2 = "to_csv (SelectedStationCsv fips) (StationRows [sel]) ?fs1"
    have w2: "written ?fs2 = written fs @ [StationsMetaCsv fips, SelectedStationCsv fips]"
      by (simp add: written_to_csv)
    show ?thesis
    proof (cases "mindate sel = None \<or> maxdate sel = None")
      case True
      then have "fs' = ?fs2" "r = Uncaught TypeError"
        using run Inr ne sel by (simp_all add: process_region_def Let_def)
      then show ?thesis using w2 by simp
    next
      case dates: False
      obtain fs3 pyp parts where fy:
        "fetch_years a fetch fips (station_id sel) (year_slices (mindate sel) (maxdate sel))
           ?fs2 [] [] = (fs3, pyp, parts)"
        by (metis prod_cases3)
      obtain new3 where new3: "written fs3 = written ?fs2 @ new3"
        "\<forall>p \<in> set new3. \<not> is_period_csv p"
        using fetch_years_written [OF fy] by blast
      let ?mid = "[StationsMetaCsv fips, SelectedStationCsv fips] @ new3"
      have w3: "written fs3 = written fs @ ?mid" "\<forall>p \<in> set ?mid. \<not> is_period_csv p"
        using new3 w2 by simp_all
      have step: "(fs', r) =
        (case merge_daily a fs3 pyp parts of
           Inl e \<Rightarrow> (fs3, Uncaught e)
         | Inr daily_df \<Rightarrow>
             if daily_df = [] then (fs3, NoDaily)
             else (case daily_to_period_station daily_df wanted_vars (arg_freq a) of
                     Inl e \<Rightarrow> (fs3, Uncaught e)
                   | Inr agg \<Rightarrow>
                       if table_empty agg then (fs3, EmptyAggregate)
                       else (to_csv (PeriodCsv fips (out_name (arg_freq a)))
                               (PeriodTable agg) fs3, Done)))"
        using run Inr ne sel dates fy
        by (auto simp: process_region_def Let_def split: sum.splits)
      show ?thesis
      proof (cases "merge_daily a fs3 pyp parts")
        case (Inl e)
        then have "fs' = fs3" "r = Uncaught e" using step by simp_all
        then show ?thesis using w3 by (intro exI [of _ ?mid]) simp
      next
        case md: (Inr daily_df)
        show ?thesis
        proof (cases "daily_df = []")
          case True
          then have "fs' = fs3" "r = NoDaily" using step md by simp_all
          then show ?thesis using w3 by (intro exI [of _ ?mid]) simp
        next
          case daily: False
          show ?thesis
          proof (cases "daily_to_period_station daily_df wanted_vars (arg_freq a)")
            case (Inl e)
            then have "fs' = fs3" "r = Uncaught e" using step md daily by simp_all
            then show ?thesis using w3 by (intro exI [of _ ?mid]) simp
          next
            case ag: (Inr agg)
            show ?thesis
            proof (cases "table_empty agg")
              case True
              then have "fs' = fs3" "r = EmptyAggregate" using step md daily ag by simp_all
              then show ?thesis using w3 by (intro exI [of _ ?mid]) simp
            next
              case False
              then have res:
                "fs' = to_csv (PeriodCsv fips (out_name (arg_freq a))) (PeriodTable agg) fs3"
                "r = Done"
                using step md daily ag by simp_all
              have w: "written fs' = written fs @ ?mid @ [PeriodCsv fips (out_name (arg_freq a))]"
                using res(1) w3(1) by (simp add: written_to_csv)
              have f: "files fs' (PeriodCsv fips (out_name (arg_freq a))) = Some (PeriodTable agg)"
                using res(1) by (simp add: files_to_csv)
              show ?thesis
                apply (intro exI [of _ "?mid @ [PeriodCsv fips (out_name (arg_freq a))]"]
                    conjI impI)
                subgoal using w by simp
                subgoal using res(2) by simp
                subgoal
                  apply (rule exI [of _ stations], rule exI [of _ sel], rule exI [of _ fs3],
                      rule exI [of _ pyp], rule exI [of _ parts], rule exI [of _ daily_df],
                      rule exI [of _ agg], rule exI [of _ ?mid])
                  using Inr ne sel fy md daily ag False f w3(2) by simp
                done
            qed
          qed
        qed
      qed
    qed
  qed
qed

text \<open>A region with one station and one year slice whose fetch returns two temperatures:
  the aggregate is written last. The same region with every fetch timing out, and with a
  fetch that returns a row whose date does not parse (the aggregator raises): no
  aggregate is written.\<close>

theorem period_file_only_after_success_witness:
  "no_label_clash [''TMAX''] \<and>
   snd (process_region
          \<lparr>arg_freq = ''weekly'', arg_prefer_usw = False,
            arg_save_raw = False, arg_resume = False\<rparr>
          [''TMAX''] ''01''
          (Inr [\<lparr>station_id = ''GHCND:USC00010001'', mindate = Some (Date 2024 1 1),
             maxdate = Some (Date 2024 12 31), datacoverage = Some 1\<rparr>])
          (\<lambda>sl. Inr [\<lparr>obs_date = Some (Date 2024 1 9), obs_datatype = ''TMAX'', obs_value = 30\<rparr>,
                     \<lparr>obs_date = Some (Date 2024 1 10), obs_datatype = ''TMAX'', obs_value = 41\<rparr>])
          \<lparr>files = \<lambda>p. None, written = []\<rparr>) = Done \<and>
   written (fst (process_region
          \<lparr>arg_freq = ''weekly'', arg_prefer_usw = False,
            arg_save_raw = False, arg_resume = False\<rparr>
          [''TMAX''] ''01''
          (Inr [\<lparr>station_id = ''GHCND:USC00010001'', mindate = Some (Date 2024 1 1),
             maxdate = Some (Date 2024 12 31), datacoverage = Some 1\<rparr>])
          (\<lambda>sl. Inr [\<lparr>obs_date = Some (Date 2024 1 9), obs_datatype = ''TMAX'', obs_value = 30\<rparr>,
                     \<lparr>obs_date = Some (Date 2024 1 10), obs_datatype = ''TMAX'', obs_value = 41\<rparr>])
          \<lparr>files = \<lambda>p. None, written = []\<rparr>)) =
     [StationsMetaCsv ''01'', SelectedStationCsv ''01'',
      PeriodCsv ''01'' ''weekly_selected_station.csv''] \<and>
   snd (process_region
          \<lparr>arg_freq = ''weekly'', arg_prefer_usw = False,
            arg_save_raw = False, arg_resume = False\<rparr>
          [''TMAX''] ''01''
          (Inr [\<lparr>station_id = ''GHCND:USC00010001'', mindate = Some (Date 2024 1 1),
             maxdate = Some (Date 2024 12 31), datacoverage = Some 1\<rparr>])
          (\<lambda>sl. Inl Timeout) \<lparr>files = \<lambda>p. None, written = []\<rparr>) \<noteq> Done \<and>
   snd (process_region
          \<lparr>arg_freq = ''weekly'', arg_prefer_usw = False,
            arg_save_raw = False, arg_resume = False\<rparr>
          [''TMAX''] ''01''
          (Inr [\<lparr>station_id = ''GHCND:USC00010001'', mindate = Some (Date 2024 1 1),
             maxdate = Some (Date 2024 12 31), datacoverage = Some 1\<rparr>])
          (\<lambda>sl. Inr [\<lparr>obs_date = None, obs_datatype = ''TMAX'', obs_value = 30\<rparr>])
          \<lparr>files = \<lambda>p. None, written = []\<rparr>) = Uncaught AttributeError \<and>
   written (fst (process_region
          \<lparr>arg_freq = ''weekly'', arg_prefer_usw = False,
            arg_save_raw = False, arg_resume = False\<rparr>
          [''TMAX''] ''01''
          (Inr [\<lparr>station_id = ''GHCND:USC00010001'', mindate = Some (Date 2024 1 1),
             maxdate = Some (Date 2024 12 31), datacoverage = Some 1\<rparr>])
          (\<lambda>sl. Inr [\<lparr>obs_date = None, obs_datatype = ''TMAX'', obs_value = 30\<rparr>])
          \<lparr>files = \<lambda>p. None, written = []\<rparr>)) =
     [StationsMetaCsv ''01'', SelectedStationCsv ''01'']"
  using period_file_only_after_success [of "[''TMAX'']" "\<lparr>arg_freq = ''weekly'', arg_prefer_usw = False,
            arg_save_raw = False, arg_resume = False\<rparr>" "''01''"
      "Inr [\<lparr>station_id = ''GHCND:USC00010001'', mindate = Some (Date 2024 1 1),
             maxdate = Some (Date 2024 12 31), datacoverage = Some 1\<rparr>]"
      "\<lambda>sl. Inr [\<lparr>obs_date = Some (Date 2024 1 9), obs_datatype = ''TMAX'', obs_value = 30\<rparr>,
                 \<lparr>obs_date = Some (Date 2024 1 10), obs_datatype = ''TMAX'', obs_value = 41\<rparr>]"
      "\<lparr>files = \<lambda>p. None, written = []\<rparr>"
      "fst (process_region
          \<lparr>arg_freq = ''weekly'', arg_prefer_usw = False,
            arg_save_raw = False, arg_resume = False\<rparr>
          [''TMAX''] ''01''
          (Inr [\<lparr>station_id = ''GHCND:USC00010001'', mindate = Some (Date 2024 1 1),
             maxdate = Some (Date 2024 12 31), datacoverage = Some 1\<rparr>])
          (\<lambda>sl. Inr [\<lparr>obs_date = Some (Date 2024 1 9), obs_datatype = ''TMAX'', obs_value = 30\<rparr>,
                     \<lparr>obs_date = Some (Date 2024 1 10), obs_datatype = ''TMAX'', obs_value = 41\<rparr>])
          \<lparr>files = \<lambda>p. None, written = []\<rparr>)"
      "snd (process_region
          \<lparr>arg_freq = ''weekly'', arg_prefer_usw = False,
            arg_save_raw = False, arg_resume = False\<rparr>
          [''TMAX''] ''01''
          (Inr [\<lparr>station_id = ''GHCND:USC00010001'', mindate = Some (Date 2024 1 1),
             maxdate = Some (Date 2024 12 31), datacoverage = Some 1\<rparr>])
          (\<lambda>sl. Inr [\<lparr>obs_date = Some (Date 2024 1 9), obs_datatype = ''TMAX'', obs_value = 30\<rparr>,
                     \<lparr>obs_date = Some (Date 2024 1 10), obs_datatype = ''TMAX'', obs_value = 41\<rparr>])
          \<lparr>files = \<lambda>p. None, written = []\<rparr>)"]
    period_file_only_after_success [of "[''TMAX'']" "\<lparr>arg_freq = ''weekly'', arg_prefer_usw = False,
            arg_save_raw = False, arg_resume = False\<rparr>" "''01''"
      "Inr [\<lparr>station_id = ''GHCND:USC00010001'', mindate = Some (Date 2024 1 1),
             maxdate = Some (Date 2024 12 31), datacoverage = Some 1\<rparr>]" "\<lambda>sl. Inl Timeout" "\<lparr>files = \<lambda>p. None, written = []\<rparr>"
      "fst (process_region
          \<lparr>arg_freq = ''weekly'', arg_prefer_usw = False,
            arg_save_raw = False, arg_resume = False\<rparr>
          [''TMAX''] ''01''
          (Inr [\<lparr>station_id = ''GHCND:USC00010001'', mindate = Some (Date 2024 1 1),
             maxdate = Some (Date 2024 12 31), datacoverage = Some 1\<rparr>]) (\<lambda>sl. Inl Timeout) \<lparr>files = \<lambda>p. None, written = []\<rparr>)"
      "snd (process_region
          \<lparr>arg_freq = ''weekly'', arg_prefer_usw = False,
            arg_save_raw = False, arg_resume = False\<rparr>
          [''TMAX''] ''01''
          (Inr [\<lparr>station_id = ''GHCND:USC00010001'', mindate = Some (Date 2024 1 1),
             maxdate = Some (Date 2024 12 31), datacoverage = Some 1\<rparr>]) (\<lambda>sl. Inl Timeout) \<lparr>files = \<lambda>p. None, written = []\<rparr>)"]
  by (simp add: region_defs pick_defs agg_defs prod_order_defs year_slices_defs calendar_defs)

end
